theory Spec2Isabelle
  imports Main "HOL-Library.Sublist" "HOL-Library.AList"
begin

section \<open>Strings and the regular expressions of the orchestrator\<close>

text \<open>
  A JavaScript string is modelled as a \<^typ>\<open>string\<close>; a \<^typ>\<open>char\<close> stands for the code unit
  of the same number (code units 0 to 255). The regular expressions of
  \<^verbatim>\<open>orchestrator.ts\<close> carry no flags except \<^verbatim>\<open>g\<close>, so \<^verbatim>\<open>$\<close> is the end of the
  input and \<^verbatim>\<open>String.match\<close> returns the leftmost match.
\<close>

text \<open>Leftmost search: the matcher is tried at every start position, from the left.\<close>

fun first_match :: "(string \<Rightarrow> 'a option) \<Rightarrow> string \<Rightarrow> 'a option" where
  "first_match m [] = m []"
| "first_match m (c # cs) =
     (case m (c # cs) of Some r \<Rightarrow> Some r | None \<Rightarrow> first_match m cs)"

text \<open>The tail \<^verbatim>\<open>(?:\.git)?\/?$\<close> of the GitHub pattern.\<close>

definition git_tail :: "string \<Rightarrow> bool" where
  "git_tail r = (r = ''.git/'' \<or> r = ''.git'' \<or> r = ''/'' \<or> r = [])"

text \<open>
  The lazy group \<^verbatim>\<open>([^/]+?)\<close> followed by that tail: the group, already holding
  \<open>acc\<close>, takes one more character only when the tail does not match what is left.
\<close>

fun lazy_repo :: "string \<Rightarrow> string \<Rightarrow> string option" where
  "lazy_repo acc [] = Some acc"
| "lazy_repo acc (c # r) =
     (if git_tail (c # r) then Some acc
      else if c = CHR ''/'' then None
      else lazy_repo (acc @ [c]) r)"

text \<open>
  \<^verbatim>\<open>/github\.com[/:]([^/]+)\/([^/]+?)(?:\.git)?\/?$/\<close> anchored at the start of \<open>s\<close>.
  The greedy group \<^verbatim>\<open>([^/]+)\<close> must be followed by a slash, so it is the whole run of
  characters up to the next slash; the result is the pair of the two groups.
\<close>

definition github_here :: "string \<Rightarrow> (string \<times> string) option" where
  "github_here s =
     (if take 10 s = ''github.com'' then
        (case drop 10 s of
           [] \<Rightarrow> None
         | sep # r \<Rightarrow>
             if sep = CHR ''/'' \<or> sep = CHR '':'' then
               (let owner = takeWhile (\<lambda>c. c \<noteq> CHR ''/'') r;
                    r2 = dropWhile (\<lambda>c. c \<noteq> CHR ''/'') r
                in if owner = [] then None
                   else (case r2 of
                           [] \<Rightarrow> None
                         | _ # r3 \<Rightarrow>
                             (case r3 of
                                [] \<Rightarrow> None
                              | c # r4 \<Rightarrow>
                                  if c = CHR ''/'' then None
                                  else map_option (Pair owner) (lazy_repo [c] r4))))
             else None)
      else None)"

text \<open>\<^verbatim>\<open>.replace(/\.git$/, '')\<close>\<close>

definition strip_git :: "string \<Rightarrow> string" where
  "strip_git g = (if suffix ''.git'' g then take (length g - 4) g else g)"

text \<open>\<^verbatim>\<open>Orchestrator.extractGitHubRepo\<close>: \<open>None\<close> is the source's \<^verbatim>\<open>null\<close>.\<close>

definition extractGitHubRepo :: "string \<Rightarrow> string option" where
  "extractGitHubRepo repoPath =
     (case first_match github_here repoPath of
        Some (owner, repo) \<Rightarrow> Some (owner @ ''/'' @ strip_git repo)
      | None \<Rightarrow> None)"

text \<open>\<^verbatim>\<open>/[#&]branch=([^&]+)/\<close> anchored at the start of \<open>s\<close>.\<close>

definition branch_here :: "string \<Rightarrow> string option" where
  "branch_here s =
     (case s of
        [] \<Rightarrow> None
      | c # r \<Rightarrow>
          if (c = CHR ''#'' \<or> c = CHR ''&'') \<and> take 7 r = ''branch='' then
            (let g = takeWhile (\<lambda>c. c \<noteq> CHR ''&'') (drop 7 r)
             in if g = [] then None else Some g)
          else None)"

text \<open>\<^verbatim>\<open>Orchestrator.extractBranchFromUrl\<close>\<close>

definition extractBranchFromUrl :: "string \<Rightarrow> string option" where
  "extractBranchFromUrl url = first_match branch_here url"

text \<open>The character classes \<^verbatim>\<open>\w\<close> and \<^verbatim>\<open>\s\<close>, and the case mappings, on code units below 256.\<close>

definition is_word :: "char \<Rightarrow> bool" where
  "is_word c =
     (let n = (of_char c :: nat)
      in (48 \<le> n \<and> n \<le> 57) \<or> (65 \<le> n \<and> n \<le> 90) \<or> n = 95 \<or> (97 \<le> n \<and> n \<le> 122))"

definition is_space :: "char \<Rightarrow> bool" where
  "is_space c =
     (let n = (of_char c :: nat) in (9 \<le> n \<and> n \<le> 13) \<or> n = 32 \<or> n = 160)"

definition toUpperCase_word :: "char \<Rightarrow> char" where
  "toUpperCase_word c =
     (let n = (of_char c :: nat) in if 97 \<le> n \<and> n \<le> 122 then char_of (n - 32) else c)"

definition toLowerCase_char :: "char \<Rightarrow> char" where
  "toLowerCase_char c =
     (let n = (of_char c :: nat)
      in if (65 \<le> n \<and> n \<le> 90) \<or> (192 \<le> n \<and> n \<le> 222 \<and> n \<noteq> 215)
         then char_of (n + 32) else c)"

text \<open>
  \<^verbatim>\<open>.replace(/\b\w/g, (l) => l.toUpperCase())\<close>: a word character is replaced when the
  character before it is not a word character (or there is none); \<open>prev\<close> tells whether
  the character before is a word character.
\<close>

fun capitalize_words :: "bool \<Rightarrow> string \<Rightarrow> string" where
  "capitalize_words prev [] = []"
| "capitalize_words prev (c # cs) =
     (if is_word c \<and> \<not> prev then toUpperCase_word c else c) # capitalize_words (is_word c) cs"

text \<open>The last element of \<^verbatim>\<open>githubRepo.split('/')\<close>.\<close>

definition last_part :: "string \<Rightarrow> string" where
  "last_part s = rev (takeWhile (\<lambda>c. c \<noteq> CHR ''/'') (rev s))"

text \<open>\<^verbatim>\<open>Orchestrator.generateNameFromRepo\<close>\<close>

definition generateNameFromRepo :: "string \<Rightarrow> string" where
  "generateNameFromRepo githubRepo =
     (let repoName = last_part githubRepo;
          spaced = map (\<lambda>c. if c = CHR ''-'' \<or> c = CHR ''_'' then CHR '' '' else c) repoName;
          capitalized = capitalize_words False spaced;
          joined = filter (\<lambda>c. \<not> is_space c) capitalized
      in map toLowerCase_char joined)"

text \<open>
  The base name the orchestrator derives from a repository reference when the caller gives
  no project name: \<^verbatim>\<open>generateNameFromRepo(extractGitHubRepo(repoPath))\<close>.
\<close>

definition deriveName :: "string \<Rightarrow> string option" where
  "deriveName repoPath = map_option generateNameFromRepo (extractGitHubRepo repoPath)"


text \<open>The text of a non-negative integer in a template string.\<close>

function show_nat :: "nat \<Rightarrow> string" where
  "show_nat n =
     (if n < 10 then [char_of (48 + n)] else show_nat (n div 10) @ [char_of (48 + n mod 10)])"
  by pat_completeness auto
termination
  by (relation "measure id") auto

text \<open>
  \<^verbatim>\<open>a || b\<close> on an optional string: \<open>None\<close> is \<^verbatim>\<open>undefined\<close>, and the empty string is
  falsy as well.
\<close>

definition or_else :: "string option \<Rightarrow> string \<Rightarrow> string" where
  "or_else a b = (case a of None \<Rightarrow> b | Some s \<Rightarrow> if s = [] then b else s)"

section \<open>Objects of environment variables\<close>

text \<open>
  A \<^verbatim>\<open>Record<string, string>\<close> is the list of its entries in insertion order; a
  well-formed object has distinct keys. Writing a key that is present replaces its value
  in place, writing a new key appends it (\<^const>\<open>AList.update\<close>). The order in which
  JavaScript enumerates integer-like keys is not modelled; nothing below depends on the
  order of the entries.
\<close>

type_synonym env = "(string \<times> string) list"

text \<open>\<^verbatim>\<open>{ ...base, ...src }\<close>: the entries of \<open>src\<close> are written over \<open>base\<close>, in order.\<close>

definition spread :: "env \<Rightarrow> env \<Rightarrow> env" where
  "spread base src = fold (\<lambda>(k, v). AList.update k v) src base"

text \<open>Spreading an optional object: \<^verbatim>\<open>...undefined\<close> adds nothing.\<close>

definition spread_opt :: "env \<Rightarrow> env option \<Rightarrow> env" where
  "spread_opt base src = (case src of None \<Rightarrow> base | Some e \<Rightarrow> spread base e)"

section \<open>Data model\<close>

text \<open>\<^verbatim>\<open>ProjectType\<close> and \<^verbatim>\<open>ProjectBlueprint\<close> of the types module.\<close>

datatype ProjectType = FRONTEND | BACKEND | DATABASE | UNKNOWN

fun type_value :: "ProjectType \<Rightarrow> string" where
  "type_value FRONTEND = ''frontend''"
| "type_value BACKEND = ''backend''"
| "type_value DATABASE = ''database''"
| "type_value UNKNOWN = ''unknown''"

record Metadata =
  framework :: "string option"
  packageManager :: "string option"
  runtime :: "string option"
  technologies :: "string list option"
  isStreamlit :: "bool option"

text \<open>
  The confidence is a floating-point number that the orchestrator only prints; the field
  \<open>confidence_percent\<close> holds the text of \<^verbatim>\<open>(confidence * 100).toFixed(1)\<close>.
\<close>

record ProjectBlueprint =
  ptype :: ProjectType
  path :: string
  confidence_percent :: string
  indicators :: "string list"
  metadata :: "Metadata option"

text \<open>\<^verbatim>\<open>blueprint.metadata?.isStreamlit === true\<close>\<close>

definition streamlit_flag :: "ProjectBlueprint \<Rightarrow> bool" where
  "streamlit_flag blueprint =
     (case metadata blueprint of None \<Rightarrow> False | Some m \<Rightarrow> isStreamlit m = Some True)"

datatype platform = Neon | Railway | Vercel

datatype channel = On platform | System

datatype resource_type = Project | Service

fun platform_value :: "platform \<Rightarrow> string" where
  "platform_value Neon = ''neon''"
| "platform_value Railway = ''railway''"
| "platform_value Vercel = ''vercel''"

fun resource_type_value :: "resource_type \<Rightarrow> string" where
  "resource_type_value Project = ''project''"
| "resource_type_value Service = ''service''"

text \<open>An element of \<^verbatim>\<open>trackedResources\<close>.\<close>

record TrackedResource =
  res_platform :: platform
  res_type :: resource_type
  res_id :: string
  res_name :: "string option"

text \<open>
  The object handed to the progress callback, without its timestamp. When there is no
  callback the same step is printed to the console instead; \<open>events\<close> below records
  the steps either way.
\<close>

record ProgressStep =
  ev_step :: nat
  ev_total :: nat
  ev_message :: string
  ev_platform :: channel
  ev_completed :: bool

text \<open>The \<^verbatim>\<open>{ id, name }\<close> that a create call returns.\<close>

record Created =
  created_id :: string
  created_name :: string

record NeonResult =
  n_projectId :: string
  n_projectName :: string
  n_databaseUrl :: string

record RailwayResult =
  r_projectId :: string
  r_serviceId :: string
  r_projectName :: string
  r_serviceName :: string

record VercelResult =
  v_projectId :: string
  v_projectName :: string
  v_projectUrl :: string

section \<open>The platforms\<close>

text \<open>
  The methods of the three provisioning services that the orchestrator reaches, with their
  arguments. \<open>calls\<close> below records every invocation, in order; the composite methods
  (\<^verbatim>\<open>provisionDatabase\<close>, \<^verbatim>\<open>provisionBackend\<close>, \<^verbatim>\<open>provisionFrontend\<close>) are recorded when
  they are entered, before the calls they make.
\<close>

datatype call =
    NeonProvisionDatabase string
  | NeonCreateProject string
  | NeonGetDatabaseUrl string
  | NeonDeleteProject string
  | RailwayProvisionBackend string string string string "env option" bool
  | RailwayCreateProject string
  | RailwayCreateService string string string string
  | RailwaySetVariables string string env
  | RailwayDeleteService string
  | RailwayDeleteProject string
  | VercelProvisionFrontend string "string option" "env option"
  | VercelCreateProject string "(string \<times> string) option"
  | VercelAddEnvVariables string env
  | VercelGetProjectUrl string
  | VercelDeleteProject string

text \<open>
  What lies outside the orchestrator: the classifier, the user at the confirmation prompt
  and the three platforms. Every operation may depend on all the calls made before it
  (the first argument) and either throws an error, given by its message (\<open>Inl\<close>), or
  returns (\<open>Inr\<close>). The dry-run mode of a service is one such behaviour.
\<close>

record world =
  scanRepository :: "call list \<Rightarrow> string \<Rightarrow> string + ProjectBlueprint"
  userConfirms :: bool
  neon_createProject :: "call list \<Rightarrow> string \<Rightarrow> string + Created"
  neon_getDatabaseUrl :: "call list \<Rightarrow> string \<Rightarrow> string + string"
  neon_deleteProject :: "call list \<Rightarrow> string \<Rightarrow> string + unit"
  railway_createProject :: "call list \<Rightarrow> string \<Rightarrow> string + Created"
  railway_createService ::
    "call list \<Rightarrow> string \<Rightarrow> string \<Rightarrow> string \<Rightarrow> string \<Rightarrow> string + Created"
  railway_setVariables :: "call list \<Rightarrow> string \<Rightarrow> string \<Rightarrow> env \<Rightarrow> string + unit"
  railway_deleteService :: "call list \<Rightarrow> string \<Rightarrow> string + unit"
  railway_deleteProject :: "call list \<Rightarrow> string \<Rightarrow> string + unit"
  vercel_createProject ::
    "call list \<Rightarrow> string \<Rightarrow> (string \<times> string) option \<Rightarrow> string + Created"
  vercel_addEnvVariables :: "call list \<Rightarrow> string \<Rightarrow> env \<Rightarrow> string + unit"
  vercel_getProjectUrl :: "call list \<Rightarrow> string \<Rightarrow> string + string"
  vercel_deleteProject :: "call list \<Rightarrow> string \<Rightarrow> string + unit"

section \<open>The orchestrator\<close>

text \<open>
  The fields of an \<^verbatim>\<open>Orchestrator\<close> that the deployment methods read and write, the
  counter \<^verbatim>\<open>currentStep\<close> of \<^verbatim>\<open>deployFullTrinity\<close>, and three records of what
  happened: \<open>calls\<close>, \<open>events\<close> and \<open>pushed\<close> (every resource passed to
  \<^verbatim>\<open>trackResource\<close>, never cleared).
\<close>

record orchestrator =
  dryRun :: bool
  trackedResources :: "TrackedResource list"
  currentStep :: nat
  calls :: "call list"
  events :: "ProgressStep list"
  pushed :: "TrackedResource list"

text \<open>A computation that may throw: the state it leaves, and the error or the result.\<close>

type_synonym 'a outcome = "orchestrator \<times> (string + 'a)"

text \<open>An awaited call of a platform method: it is recorded, then answered by the world.\<close>

definition invoke :: "call \<Rightarrow> (call list \<Rightarrow> string + 'a) \<Rightarrow> orchestrator \<Rightarrow> 'a outcome" where
  "invoke c respond st = (st\<lparr>calls := calls st @ [c]\<rparr>, respond (calls st))"

text \<open>Entering a composite method.\<close>

definition enter :: "call \<Rightarrow> orchestrator \<Rightarrow> orchestrator" where
  "enter c st = st\<lparr>calls := calls st @ [c]\<rparr>"


subsection \<open>The provisioning flows of the three services\<close>

text \<open>\<^verbatim>\<open>NeonProvisioningService.provisionDatabase\<close>\<close>

definition provisionDatabase :: "world \<Rightarrow> string \<Rightarrow> orchestrator \<Rightarrow> NeonResult outcome" where
  "provisionDatabase w projectName st0 =
     (case invoke (NeonCreateProject projectName) (\<lambda>h. neon_createProject w h projectName)
             (enter (NeonProvisionDatabase projectName) st0) of
        (st1, Inl e) \<Rightarrow> (st1, Inl e)
      | (st1, Inr project) \<Rightarrow>
          (case invoke (NeonGetDatabaseUrl (created_id project))
                  (\<lambda>h. neon_getDatabaseUrl w h (created_id project)) st1 of
             (st2, Inl e) \<Rightarrow> (st2, Inl e)
           | (st2, Inr databaseUrl) \<Rightarrow>
               (st2, Inr \<lparr>n_projectId = created_id project,
                          n_projectName = created_name project,
                          n_databaseUrl = databaseUrl\<rparr>)))"

text \<open>\<^verbatim>\<open>RailwayProvisioningService.optimizeForStreamlit\<close>\<close>

definition streamlitVars :: env where
  "streamlitVars =
     [(''PORT'', ''8501''),
      (''STREAMLIT_SERVER_PORT'', ''8501''),
      (''STREAMLIT_SERVER_ADDRESS'', ''0.0.0.0'')]"

definition optimizeForStreamlit :: "env \<Rightarrow> env" where
  "optimizeForStreamlit variables = spread (spread [] variables) streamlitVars"

text \<open>\<^verbatim>\<open>RailwayProvisioningService.provisionBackend\<close>\<close>

definition provisionBackend ::
  "world \<Rightarrow> string \<Rightarrow> string \<Rightarrow> string \<Rightarrow> string \<Rightarrow> env option \<Rightarrow> bool \<Rightarrow>
   orchestrator \<Rightarrow> RailwayResult outcome" where
  "provisionBackend w projectName serviceName githubRepo branch variables streamlit st0 =
     (case invoke (RailwayCreateProject projectName) (\<lambda>h. railway_createProject w h projectName)
             (enter (RailwayProvisionBackend projectName serviceName githubRepo branch
                       variables streamlit) st0) of
        (st1, Inl e) \<Rightarrow> (st1, Inl e)
      | (st1, Inr project) \<Rightarrow>
          (case invoke (RailwayCreateService (created_id project) serviceName githubRepo branch)
                  (\<lambda>h. railway_createService w h (created_id project) serviceName
                         githubRepo branch) st1 of
             (st2, Inl e) \<Rightarrow> (st2, Inl e)
           | (st2, Inr service) \<Rightarrow>
               (let given = (case variables of None \<Rightarrow> [] | Some v \<Rightarrow> v);
                    finalVariables = (if streamlit then optimizeForStreamlit given else given);
                    result = \<lparr>r_projectId = created_id project,
                              r_serviceId = created_id service,
                              r_projectName = created_name project,
                              r_serviceName = created_name service\<rparr>
                in if finalVariables \<noteq> [] then
                     (case invoke (RailwaySetVariables (created_id project) (created_id service)
                                     finalVariables)
                             (\<lambda>h. railway_setVariables w h (created_id project)
                                    (created_id service) finalVariables) st2 of
                        (st3, Inl e) \<Rightarrow> (st3, Inl e)
                      | (st3, Inr _) \<Rightarrow> (st3, Inr result))
                   else (st2, Inr result))))"

text \<open>
  \<^verbatim>\<open>VercelProvisioningService.provisionFrontend\<close>; the Git repository handed to
  \<^verbatim>\<open>createProject\<close> is the pair of \<^verbatim>\<open>repo\<close> and \<^verbatim>\<open>productionBranch\<close>.
\<close>

definition provisionFrontend ::
  "world \<Rightarrow> string \<Rightarrow> string option \<Rightarrow> env option \<Rightarrow> orchestrator \<Rightarrow> VercelResult outcome" where
  "provisionFrontend w projectName githubRepo environmentVariables st0 =
     (let gitRepo = (case githubRepo of
                       None \<Rightarrow> None
                     | Some r \<Rightarrow> if r = [] then None else Some (r, ''main''))
      in case invoke (VercelCreateProject projectName gitRepo)
                (\<lambda>h. vercel_createProject w h projectName gitRepo)
                (enter (VercelProvisionFrontend projectName githubRepo environmentVariables)
                   st0) of
           (st1, Inl e) \<Rightarrow> (st1, Inl e)
         | (st1, Inr project) \<Rightarrow>
             (case (case environmentVariables of
                      None \<Rightarrow> (st1, Inr ())
                    | Some vars \<Rightarrow>
                        if vars \<noteq> [] then
                          invoke (VercelAddEnvVariables (created_id project) vars)
                            (\<lambda>h. vercel_addEnvVariables w h (created_id project) vars) st1
                        else (st1, Inr ())) of
                (st2, Inl e) \<Rightarrow> (st2, Inl e)
              | (st2, Inr _) \<Rightarrow>
                  (case invoke (VercelGetProjectUrl (created_id project))
                          (\<lambda>h. vercel_getProjectUrl w h (created_id project)) st2 of
                     (st3, Inl e) \<Rightarrow> (st3, Inl e)
                   | (st3, Inr projectUrl) \<Rightarrow>
                       (st3, Inr \<lparr>v_projectId = created_id project,
                                  v_projectName = created_name project,
                                  v_projectUrl = projectUrl\<rparr>))))"

subsection \<open>Resource tracking and rollback\<close>

text \<open>\<^verbatim>\<open>Orchestrator.trackResource\<close>\<close>

definition trackResource ::
  "platform \<Rightarrow> resource_type \<Rightarrow> string \<Rightarrow> string option \<Rightarrow> orchestrator \<Rightarrow> orchestrator" where
  "trackResource p t i n st =
     (let resource = \<lparr>res_platform = p, res_type = t, res_id = i, res_name = n\<rparr>
      in st\<lparr>trackedResources := trackedResources st @ [resource],
            pushed := pushed st @ [resource]\<rparr>)"

text \<open>The closure \<^verbatim>\<open>sendRollbackProgress\<close> of \<^verbatim>\<open>rollback\<close>.\<close>

definition sendRollbackProgress :: "string \<Rightarrow> channel \<Rightarrow> orchestrator \<Rightarrow> orchestrator" where
  "sendRollbackProgress msg ch st =
     st\<lparr>events := events st @
           [\<lparr>ev_step = 0, ev_total = length (trackedResources st) + 1, ev_message = msg,
             ev_platform = ch, ev_completed = False\<rparr>]\<rparr>"

text \<open>\<^verbatim>\<open>resource.name || resource.id\<close>\<close>

definition display_name :: "TrackedResource \<Rightarrow> string" where
  "display_name resource = or_else (res_name resource) (res_id resource)"

text \<open>The \<^verbatim>\<open>catch\<close> block inside the loop of \<^verbatim>\<open>rollback\<close>.\<close>

definition delete_failed :: "TrackedResource \<Rightarrow> string \<Rightarrow> orchestrator \<Rightarrow> orchestrator" where
  "delete_failed resource rollbackError st =
     sendRollbackProgress
       (''Failed to delete '' @ platform_value (res_platform resource) @ '' '' @
        resource_type_value (res_type resource) @ '': '' @ rollbackError)
       (On (res_platform resource)) st"

text \<open>
  One of the four deleting branches: the announcement, the awaited delete call, and
  either the success message or the \<^verbatim>\<open>catch\<close> block.
\<close>

definition delete_with ::
  "string \<Rightarrow> string \<Rightarrow> call \<Rightarrow> (call list \<Rightarrow> string + unit) \<Rightarrow> TrackedResource \<Rightarrow>
   orchestrator \<Rightarrow> orchestrator" where
  "delete_with announce success c respond resource st =
     (case invoke c respond
             (sendRollbackProgress (announce @ display_name resource)
                (On (res_platform resource)) st) of
        (st1, Inl rollbackError) \<Rightarrow> delete_failed resource rollbackError st1
      | (st1, Inr _) \<Rightarrow> sendRollbackProgress success (On (res_platform resource)) st1)"

text \<open>The body of the loop of \<^verbatim>\<open>rollback\<close>, for one tracked resource.\<close>

definition rollback_resource :: "world \<Rightarrow> TrackedResource \<Rightarrow> orchestrator \<Rightarrow> orchestrator" where
  "rollback_resource w resource st =
     (if res_platform resource = Neon \<and> res_type resource = Project then
        delete_with ''Deleting Neon project: '' ''Neon project deleted successfully''
          (NeonDeleteProject (res_id resource))
          (\<lambda>h. neon_deleteProject w h (res_id resource)) resource st
      else if res_platform resource = Railway then
        (if res_type resource = Service then
           delete_with ''Deleting Railway service: '' ''Railway service deleted successfully''
             (RailwayDeleteService (res_id resource))
             (\<lambda>h. railway_deleteService w h (res_id resource)) resource st
         else if res_type resource = Project then
           delete_with ''Deleting Railway project: '' ''Railway project deleted successfully''
             (RailwayDeleteProject (res_id resource))
             (\<lambda>h. railway_deleteProject w h (res_id resource)) resource st
         else st)
      else if res_platform resource = Vercel \<and> res_type resource = Project then
        delete_with ''Deleting Vercel project: '' ''Vercel project deleted successfully''
          (VercelDeleteProject (res_id resource))
          (\<lambda>h. vercel_deleteProject w h (res_id resource)) resource st
      else st)"

text \<open>
  The loop of \<^verbatim>\<open>rollback\<close> walks the indices from the last to the first and does not
  change the list it walks: it is a recursion over the reversed list.
\<close>

fun rollback_loop :: "world \<Rightarrow> TrackedResource list \<Rightarrow> orchestrator \<Rightarrow> orchestrator" where
  "rollback_loop w [] st = st"
| "rollback_loop w (resource # rest) st = rollback_loop w rest (rollback_resource w resource st)"

text \<open>\<^verbatim>\<open>Orchestrator.rollback\<close>\<close>

definition rollback :: "world \<Rightarrow> string \<Rightarrow> orchestrator \<Rightarrow> orchestrator" where
  "rollback w errorMessage st =
     (let humanReadableError =
            ''Deployment failed: '' @ errorMessage @
            ''. Initiating automatic rollback to clean up all created resources and prevent charges.'';
          st1 = sendRollbackProgress humanReadableError System st;
          st2 = rollback_loop w (rev (trackedResources st1)) st1;
          st3 = st2\<lparr>trackedResources := []\<rparr>
      in sendRollbackProgress ''Rollback completed. All resources cleaned up.'' System st3)"


subsection \<open>The full pipeline\<close>

text \<open>
  The arguments of \<^verbatim>\<open>deployFullTrinity\<close>; \<open>progressCallback\<close> tells whether a callback
  was given. A callback is taken to return normally, so that emitting a progress step
  never throws.
\<close>

record deploy_args =
  repoPath :: string
  projectName :: "string option"
  serviceName :: "string option"
  environmentVariables :: "env option"
  progressCallback :: bool

text \<open>What a successful run returns: the blueprint and the three deployments.\<close>

record TrinityResult =
  blueprint :: ProjectBlueprint
  neon_projectId :: string
  neon_databaseUrl :: string
  railway_projectId :: string
  railway_serviceId :: string
  railway_url :: "string option"
  vercel_projectId :: string
  vercel_projectUrl :: string

text \<open>The closure \<^verbatim>\<open>sendProgress\<close> of \<^verbatim>\<open>deployFullTrinity\<close>; \<^verbatim>\<open>totalSteps\<close> is 11.\<close>

definition sendProgress :: "string \<Rightarrow> channel \<Rightarrow> bool \<Rightarrow> orchestrator \<Rightarrow> orchestrator" where
  "sendProgress msg ch done st =
     st\<lparr>currentStep := currentStep st + 1,
        events := events st @
          [\<lparr>ev_step = currentStep st + 1, ev_total = 11, ev_message = msg,
            ev_platform = ch, ev_completed = done\<rparr>]\<rparr>"

text \<open>Step 1: the announcements and the classification.\<close>

definition discover :: "world \<Rightarrow> deploy_args \<Rightarrow> orchestrator \<Rightarrow> ProjectBlueprint outcome" where
  "discover w args st0 =
     (let st1 = sendProgress ''Starting Full Trinity Deployment Orchestration'' System False st0;
          st2 = sendProgress (''Repository: '' @ repoPath args) System False st1;
          st3 = sendProgress ''Discovering project type...'' System False st2
      in case scanRepository w (calls st3) (repoPath args) of
           Inl e \<Rightarrow> (st3, Inl e)
         | Inr bp \<Rightarrow>
             (sendProgress
                (''Detected: '' @ map toUpperCase_word (type_value (ptype bp)) @ '' ('' @
                 confidence_percent bp @ ''% confidence, '' @
                 show_nat (length (indicators bp)) @ '' indicators)'')
                System False st3,
              Inr bp))"

text \<open>
  Step 2 and the naming: the confirmation (asked only without dry run and without a
  callback), the GitHub repository (always a non-empty text when found) and the names
  \<^verbatim>\<open>baseName\<close> and \<^verbatim>\<open>finalServiceName\<close>.
\<close>

definition prepare ::
  "world \<Rightarrow> deploy_args \<Rightarrow> orchestrator \<Rightarrow> string + (string \<times> string \<times> string)" where
  "prepare w args st =
     (if \<not> dryRun st \<and> \<not> progressCallback args \<and> \<not> userConfirms w then
        Inl ''Deployment cancelled by user''
      else
        (case extractGitHubRepo (repoPath args) of
           None \<Rightarrow>
             Inl (''GitHub repository URL is required for full trinity deployment. '' @
                  ''Please provide a GitHub URL (e.g., https://github.com/owner/repo)'')
         | Some githubRepo \<Rightarrow>
             (let baseName = or_else (projectName args) (generateNameFromRepo githubRepo);
                  finalServiceName = or_else (serviceName args) baseName
              in Inr (githubRepo, baseName, finalServiceName))))"

text \<open>Step 3: Neon.\<close>

definition deploy_neon :: "world \<Rightarrow> string \<Rightarrow> orchestrator \<Rightarrow> NeonResult outcome" where
  "deploy_neon w baseName st0 =
     (let st1 = sendProgress ''Deploying to Neon (Database)'' (On Neon) False st0;
          st2 = sendProgress ''Creating Neon database project...'' (On Neon) False st1
      in case provisionDatabase w (baseName @ ''-db'') st2 of
           (st3, Inl e) \<Rightarrow> (st3, Inl e)
         | (st3, Inr neonResult) \<Rightarrow>
             (let st4 = trackResource Neon Project (n_projectId neonResult)
                          (Some (n_projectName neonResult)) st3;
                  st5 = sendProgress ''Neon database created successfully'' (On Neon) True st4;
                  st6 = sendProgress ''DATABASE_URL retrieved'' (On Neon) True st5
              in (st6, Inr neonResult)))"

text \<open>The object \<^verbatim>\<open>railwayEnvVars\<close> of step 4.\<close>

definition railwayEnvVars :: "string \<Rightarrow> env option \<Rightarrow> env" where
  "railwayEnvVars databaseUrl vars = spread_opt [(''DATABASE_URL'', databaseUrl)] vars"

text \<open>Step 4: Railway. The second component of the result is \<^verbatim>\<open>deployments.railway.url\<close>.\<close>

definition deploy_railway ::
  "world \<Rightarrow> deploy_args \<Rightarrow> ProjectBlueprint \<Rightarrow> string \<Rightarrow> string \<Rightarrow> string \<Rightarrow> NeonResult \<Rightarrow>
   orchestrator \<Rightarrow> (RailwayResult \<times> string option) outcome" where
  "deploy_railway w args bp githubRepo baseName finalServiceName neonResult st0 =
     (let st1 = sendProgress ''Deploying to Railway (Backend)'' (On Railway) False st0;
          st2 = sendProgress ''Creating Railway backend project...'' (On Railway) False st1;
          vars = railwayEnvVars (n_databaseUrl neonResult) (environmentVariables args);
          branch = or_else (extractBranchFromUrl (repoPath args)) ''main'';
          st3 = sendProgress ''Connecting GitHub repository...'' (On Railway) False st2;
          streamlit = streamlit_flag bp;
          st4 = (if streamlit then
                   sendProgress
                     ''Detected Streamlit app - applying Railway Streamlit optimizer...''
                     (On Railway) False st3
                 else st3);
          st5 = sendProgress ''Setting environment variables...'' (On Railway) False st4
      in case provisionBackend w (baseName @ ''-backend'') finalServiceName githubRepo branch
                (Some vars) streamlit st5 of
           (st6, Inl e) \<Rightarrow> (st6, Inl e)
         | (st6, Inr railwayResult) \<Rightarrow>
             (let st7 = trackResource Railway Project (r_projectId railwayResult)
                          (Some (r_projectName railwayResult)) st6;
                  st8 = trackResource Railway Service (r_serviceId railwayResult)
                          (Some (r_serviceName railwayResult)) st7;
                  st9 = sendProgress ''Railway backend deployed successfully'' (On Railway)
                          True st8;
                  url = (if \<not> dryRun st9 then
                           Some (''https://'' @ r_serviceName railwayResult @ ''.railway.app'')
                         else None)
              in (st9, Inr (railwayResult, url))))"

text \<open>The object \<^verbatim>\<open>vercelEnvVars\<close> of step 5.\<close>

definition vercelEnvVars :: "string option \<Rightarrow> env option \<Rightarrow> env" where
  "vercelEnvVars url vars =
     spread_opt [(''NEXT_PUBLIC_API_URL'', or_else url ''https://api.example.com'')] vars"

text \<open>Step 5: Vercel.\<close>

definition deploy_vercel ::
  "world \<Rightarrow> deploy_args \<Rightarrow> string \<Rightarrow> string \<Rightarrow> string option \<Rightarrow> orchestrator \<Rightarrow>
   VercelResult outcome" where
  "deploy_vercel w args githubRepo baseName url st0 =
     (let st1 = sendProgress ''Deploying to Vercel (Frontend)'' (On Vercel) False st0;
          st2 = sendProgress ''Creating Vercel frontend project...'' (On Vercel) False st1;
          vars = vercelEnvVars url (environmentVariables args);
          st3 = sendProgress ''Connecting GitHub repository...'' (On Vercel) False st2;
          st4 = sendProgress ''Setting environment variables (NEXT_PUBLIC_API_URL)...''
                  (On Vercel) False st3
      in case provisionFrontend w (baseName @ ''-frontend'') (Some githubRepo) (Some vars) st4 of
           (st5, Inl e) \<Rightarrow> (st5, Inl e)
         | (st5, Inr vercelResult) \<Rightarrow>
             (let st6 = trackResource Vercel Project (v_projectId vercelResult)
                          (Some (v_projectName vercelResult)) st5;
                  st7 = sendProgress ''Vercel frontend deployed successfully'' (On Vercel)
                          True st6
              in (st7, Inr vercelResult)))"

text \<open>
  The \<^verbatim>\<open>try\<close> block of \<^verbatim>\<open>deployFullTrinity\<close> up to the statement that clears the
  tracker on success: the state it has reached, and the error it throws or the value
  that the block is about to return.
\<close>

definition stages :: "world \<Rightarrow> deploy_args \<Rightarrow> orchestrator \<Rightarrow> TrinityResult outcome" where
  "stages w args st0 =
     (case discover w args st0 of
        (st1, Inl e) \<Rightarrow> (st1, Inl e)
      | (st1, Inr bp) \<Rightarrow>
     (case prepare w args st1 of
        Inl e \<Rightarrow> (st1, Inl e)
      | Inr (githubRepo, baseName, finalServiceName) \<Rightarrow>
     (case deploy_neon w baseName st1 of
        (st2, Inl e) \<Rightarrow> (st2, Inl e)
      | (st2, Inr neonResult) \<Rightarrow>
     (case deploy_railway w args bp githubRepo baseName finalServiceName neonResult st2 of
        (st3, Inl e) \<Rightarrow> (st3, Inl e)
      | (st3, Inr (railwayResult, url)) \<Rightarrow>
     (case deploy_vercel w args githubRepo baseName url st3 of
        (st4, Inl e) \<Rightarrow> (st4, Inl e)
      | (st4, Inr vercelResult) \<Rightarrow>
          (sendProgress ''All deployments completed!'' System True st4,
           Inr \<lparr>blueprint = bp,
                neon_projectId = n_projectId neonResult,
                neon_databaseUrl = n_databaseUrl neonResult,
                railway_projectId = r_projectId railwayResult,
                railway_serviceId = r_serviceId railwayResult,
                railway_url = url,
                vercel_projectId = v_projectId vercelResult,
                vercel_projectUrl = v_projectUrl vercelResult\<rparr>))))))"

text \<open>
  The whole \<^verbatim>\<open>try\<close> block: when the stages have succeeded the tracker is cleared and
  the value is returned; an error is thrown on with the state as it is.
\<close>

definition attempt :: "world \<Rightarrow> deploy_args \<Rightarrow> orchestrator \<Rightarrow> TrinityResult outcome" where
  "attempt w args st0 =
     (case stages w args st0 of
        (st5, Inl e) \<Rightarrow> (st5, Inl e)
      | (st5, Inr result) \<Rightarrow> (st5\<lparr>trackedResources := []\<rparr>, Inr result))"

text \<open>
  \<^verbatim>\<open>error.message || 'Unknown error occurred during deployment'\<close>; every error thrown
  here carries a message, and an empty message is falsy.
\<close>

definition error_message :: "string \<Rightarrow> string" where
  "error_message e = (if e = [] then ''Unknown error occurred during deployment'' else e)"

text \<open>
  The cross mark (U+274C) that opens the failure message. It has no code unit below 256
  and is written as its three UTF-8 bytes; nothing below depends on it.
\<close>

definition cross_mark :: string where
  "cross_mark = [char_of (226 :: nat), char_of (157 :: nat), char_of (140 :: nat)]"

text \<open>The text of the error that \<^verbatim>\<open>deployFullTrinity\<close> throws after the rollback.\<close>

definition failure_text :: "string \<Rightarrow> string" where
  "failure_text errorMessage =
     ''Deployment failed: '' @ errorMessage @
     ''. Rollback completed - all created resources have been cleaned up.''"

text \<open>
  The first statements of \<^verbatim>\<open>deployFullTrinity\<close>: the tracker is emptied and the
  counter starts at 0.
\<close>

definition fresh :: "orchestrator \<Rightarrow> orchestrator" where
  "fresh st = st\<lparr>trackedResources := [], currentStep := 0\<rparr>"

text \<open>
  \<^verbatim>\<open>Orchestrator.deployFullTrinity\<close>: the \<^verbatim>\<open>try\<close> block runs from the fresh state, and
  the \<^verbatim>\<open>catch\<close> block rolls back and throws.
\<close>

definition deployFullTrinity :: "world \<Rightarrow> deploy_args \<Rightarrow> orchestrator \<Rightarrow> TrinityResult outcome" where
  "deployFullTrinity w args st0 =
     (case attempt w args (fresh st0) of
        (st1, Inr result) \<Rightarrow> (st1, Inr result)
      | (st1, Inl e) \<Rightarrow>
          (let errorMessage = error_message e;
               st2 = sendProgress (cross_mark @ '' Deployment failed: '' @ errorMessage)
                       System False st1;
               st3 = sendProgress ''Initiating rollback to clean up created resources...''
                       System False st2;
               st4 = rollback w errorMessage st3
           in (st4, Inl (failure_text errorMessage))))"


subsection \<open>Single-platform deployment\<close>

text \<open>
  The \<^verbatim>\<open>deployment\<close> that \<^verbatim>\<open>deploy\<close> returns: the result of the one provisioning
  flow, tagged with its platform.
\<close>

datatype deployment =
    RailwayDeployment RailwayResult
  | VercelDeployment VercelResult
  | NeonDeployment NeonResult

fun deployment_platform :: "deployment \<Rightarrow> string" where
  "deployment_platform (RailwayDeployment _) = ''railway''"
| "deployment_platform (VercelDeployment _) = ''vercel''"
| "deployment_platform (NeonDeployment _) = ''neon''"

text \<open>\<^verbatim>\<open>Orchestrator.deployToRailway\<close>\<close>

definition deployToRailway ::
  "world \<Rightarrow> string \<Rightarrow> ProjectBlueprint \<Rightarrow> string option \<Rightarrow> string option \<Rightarrow> env option \<Rightarrow>
   orchestrator \<Rightarrow> deployment outcome" where
  "deployToRailway w repo_path bp project_name service_name vars st =
     (case extractGitHubRepo repo_path of
        None \<Rightarrow>
          (st, Inl (''GitHub repository URL is required for Railway deployment. '' @
                    ''Please provide a GitHub URL (e.g., https://github.com/owner/repo)''))
      | Some githubRepo \<Rightarrow>
          (let finalProjectName = or_else project_name (generateNameFromRepo githubRepo);
               finalServiceName = or_else service_name (generateNameFromRepo githubRepo);
               branch = or_else (extractBranchFromUrl repo_path) ''main'';
               streamlit = streamlit_flag bp
           in case provisionBackend w finalProjectName finalServiceName githubRepo branch vars
                     streamlit st of
                (st1, Inl e) \<Rightarrow> (st1, Inl e)
              | (st1, Inr result) \<Rightarrow> (st1, Inr (RailwayDeployment result))))"

text \<open>\<^verbatim>\<open>Orchestrator.deployToVercel\<close>\<close>

definition deployToVercel ::
  "world \<Rightarrow> string \<Rightarrow> ProjectBlueprint \<Rightarrow> string option \<Rightarrow> env option \<Rightarrow>
   orchestrator \<Rightarrow> deployment outcome" where
  "deployToVercel w repo_path bp project_name vars st =
     (case extractGitHubRepo repo_path of
        None \<Rightarrow>
          (st, Inl (''GitHub repository URL is required for Vercel deployment. '' @
                    ''Please provide a GitHub URL (e.g., https://github.com/owner/repo)''))
      | Some githubRepo \<Rightarrow>
          (let finalProjectName = or_else project_name (generateNameFromRepo githubRepo)
           in case provisionFrontend w finalProjectName (Some githubRepo) vars st of
                (st1, Inl e) \<Rightarrow> (st1, Inl e)
              | (st1, Inr result) \<Rightarrow> (st1, Inr (VercelDeployment result))))"

text \<open>\<^verbatim>\<open>Orchestrator.deployToNeon\<close>\<close>

definition deployToNeon ::
  "world \<Rightarrow> string \<Rightarrow> ProjectBlueprint \<Rightarrow> string option \<Rightarrow> orchestrator \<Rightarrow>
   deployment outcome" where
  "deployToNeon w repo_path bp project_name st =
     (let finalProjectName =
            or_else project_name
              (case extractGitHubRepo repo_path of
                 Some githubRepo \<Rightarrow> generateNameFromRepo githubRepo
               | None \<Rightarrow> ''neon-database'')
      in case provisionDatabase w finalProjectName st of
           (st1, Inl e) \<Rightarrow> (st1, Inl e)
         | (st1, Inr result) \<Rightarrow> (st1, Inr (NeonDeployment result)))"

text \<open>\<^verbatim>\<open>Orchestrator.deploy\<close>\<close>

definition deploy ::
  "world \<Rightarrow> string \<Rightarrow> string option \<Rightarrow> string option \<Rightarrow> env option \<Rightarrow> orchestrator \<Rightarrow>
   (ProjectBlueprint \<times> deployment) outcome" where
  "deploy w repo_path project_name service_name vars st =
     (case scanRepository w (calls st) repo_path of
        Inl e \<Rightarrow> (st, Inl e)
      | Inr bp \<Rightarrow>
          (case (case ptype bp of
                   BACKEND \<Rightarrow> deployToRailway w repo_path bp project_name service_name vars st
                 | FRONTEND \<Rightarrow> deployToVercel w repo_path bp project_name vars st
                 | DATABASE \<Rightarrow> deployToNeon w repo_path bp project_name st
                 | UNKNOWN \<Rightarrow>
                     (st, Inl (''Cannot deploy project of type: '' @ type_value (ptype bp)))) of
             (st1, Inl e) \<Rightarrow> (st1, Inl e)
           | (st1, Inr d) \<Rightarrow> (st1, Inr (bp, d))))"

text \<open>The platform whose service a recorded call belongs to.\<close>

fun call_platform :: "call \<Rightarrow> platform" where
  "call_platform (NeonProvisionDatabase _) = Neon"
| "call_platform (NeonCreateProject _) = Neon"
| "call_platform (NeonGetDatabaseUrl _) = Neon"
| "call_platform (NeonDeleteProject _) = Neon"
| "call_platform (RailwayProvisionBackend _ _ _ _ _ _) = Railway"
| "call_platform (RailwayCreateProject _) = Railway"
| "call_platform (RailwayCreateService _ _ _ _) = Railway"
| "call_platform (RailwaySetVariables _ _ _) = Railway"
| "call_platform (RailwayDeleteService _) = Railway"
| "call_platform (RailwayDeleteProject _) = Railway"
| "call_platform (VercelProvisionFrontend _ _ _) = Vercel"
| "call_platform (VercelCreateProject _ _) = Vercel"
| "call_platform (VercelAddEnvVariables _ _) = Vercel"
| "call_platform (VercelGetProjectUrl _) = Vercel"
| "call_platform (VercelDeleteProject _) = Vercel"

subsection \<open>Notions used in the statements\<close>

text \<open>The calls recorded between two states of one run.\<close>

definition new_calls :: "orchestrator \<Rightarrow> orchestrator \<Rightarrow> call list" where
  "new_calls st st' = drop (length (calls st)) (calls st')"

text \<open>
  The delete call that the loop of \<^verbatim>\<open>rollback\<close> makes for a tracked resource; it makes
  none for a service that is not on Railway.
\<close>

definition delete_call :: "TrackedResource \<Rightarrow> call option" where
  "delete_call resource =
     (case (res_platform resource, res_type resource) of
        (Neon, Project) \<Rightarrow> Some (NeonDeleteProject (res_id resource))
      | (Railway, Service) \<Rightarrow> Some (RailwayDeleteService (res_id resource))
      | (Railway, Project) \<Rightarrow> Some (RailwayDeleteProject (res_id resource))
      | (Vercel, Project) \<Rightarrow> Some (VercelDeleteProject (res_id resource))
      | _ \<Rightarrow> None)"

text \<open>The answer of the world to that delete call, after the calls \<open>h\<close>.\<close>

definition delete_answer :: "world \<Rightarrow> call list \<Rightarrow> TrackedResource \<Rightarrow> string + unit" where
  "delete_answer w h resource =
     (case (res_platform resource, res_type resource) of
        (Neon, Project) \<Rightarrow> neon_deleteProject w h (res_id resource)
      | (Railway, Service) \<Rightarrow> railway_deleteService w h (res_id resource)
      | (Railway, Project) \<Rightarrow> railway_deleteProject w h (res_id resource)
      | (Vercel, Project) \<Rightarrow> vercel_deleteProject w h (res_id resource)
      | _ \<Rightarrow> Inr ())"

text \<open>A tracked resource with a name.\<close>

definition entry :: "platform \<Rightarrow> resource_type \<Rightarrow> string \<Rightarrow> string \<Rightarrow> TrackedResource" where
  "entry p t i n = \<lparr>res_platform = p, res_type = t, res_id = i, res_name = Some n\<rparr>"

subsection \<open>Notions used in the proofs\<close>

text \<open>What \<^verbatim>\<open>sendRollbackProgress\<close> emits in the \<^verbatim>\<open>catch\<close> block of the loop.\<close>

definition failure_step :: "TrackedResource \<Rightarrow> string \<Rightarrow> nat \<Rightarrow> ProgressStep" where
  "failure_step r m n =
     \<lparr>ev_step = 0, ev_total = n,
      ev_message = ''Failed to delete '' @ platform_value (res_platform r) @ '' '' @
                   resource_type_value (res_type r) @ '': '' @ m,
      ev_platform = On (res_platform r), ev_completed = False\<rparr>"

text \<open>
  The lists of tracked resources for each of which the loop of \<^verbatim>\<open>rollback\<close> has a
  delete call.
\<close>

definition deletable :: "TrackedResource list \<Rightarrow> bool" where
  "deletable rs = list_all (\<lambda>r. delete_call r \<noteq> None) rs"

text \<open>Lists of calls that stay on one platform.\<close>

definition neon_only :: "call list \<Rightarrow> bool" where
  "neon_only cs = list_all (\<lambda>c. call_platform c = Neon) cs"

definition vercel_only :: "call list \<Rightarrow> bool" where
  "vercel_only cs = list_all (\<lambda>c. call_platform c = Vercel) cs"

text \<open>
  What \<^verbatim>\<open>provisionBackend\<close> hands to \<^verbatim>\<open>setVariables\<close>, and the calls it makes after it
  was entered.
\<close>

definition final_variables :: "env option \<Rightarrow> bool \<Rightarrow> env" where
  "final_variables variables streamlit =
     (let given = (case variables of None \<Rightarrow> [] | Some v \<Rightarrow> v)
      in if streamlit then optimizeForStreamlit given else given)"

fun inner_call :: "env \<Rightarrow> call \<Rightarrow> bool" where
  "inner_call final (RailwayCreateProject _) = True"
| "inner_call final (RailwayCreateService _ _ _ _) = True"
| "inner_call final (RailwaySetVariables _ _ vs) = (vs = final)"
| "inner_call final _ = False"

text \<open>The calls that are neither \<^verbatim>\<open>provisionBackend\<close> nor \<^verbatim>\<open>setVariables\<close>.\<close>

fun plain :: "call \<Rightarrow> bool" where
  "plain (RailwayProvisionBackend _ _ _ _ _ _) = False"
| "plain (RailwaySetVariables _ _ _) = False"
| "plain _ = True"

text \<open>
  What is left of the last path segment when one trailing \<^verbatim>\<open>.git\<close> is taken off, and
  the second group of a match with \<^const>\<open>strip_git\<close> applied.
\<close>

definition git_core :: "string \<Rightarrow> string" where
  "git_core r = (if suffix ''.git'' r then take (length r - 4) r else r)"

definition strip2 :: "(string \<times> string) option \<Rightarrow> (string \<times> string) option" where
  "strip2 = map_option (\<lambda>(ow, g). (ow, strip_git g))"

subsection \<open>Sample worlds and runs\<close>

text \<open>
  A world in which every operation succeeds, and variations of it in which one
  operation throws; they are the concrete inputs of the examples below.
\<close>

definition sample_blueprint :: ProjectBlueprint where
  "sample_blueprint =
     \<lparr>ptype = BACKEND, path = ''/tmp/shop'', confidence_percent = ''80.0'',
      indicators = [''package.json'', ''express''], metadata = None\<rparr>"

definition streamlit_blueprint :: ProjectBlueprint where
  "streamlit_blueprint =
     sample_blueprint\<lparr>metadata :=
       Some \<lparr>framework = Some ''streamlit'', packageManager = None, runtime = Some ''python'',
             technologies = Some [''python'', ''streamlit''], isStreamlit = Some True\<rparr>\<rparr>"

definition sample_world :: world where
  "sample_world =
     \<lparr>scanRepository = (\<lambda>h p. Inr sample_blueprint),
      userConfirms = True,
      neon_createProject = (\<lambda>h n. Inr \<lparr>created_id = ''np-1'', created_name = n\<rparr>),
      neon_getDatabaseUrl = (\<lambda>h i. Inr ''postgresql://db''),
      neon_deleteProject = (\<lambda>h i. Inr ()),
      railway_createProject = (\<lambda>h n. Inr \<lparr>created_id = ''rp-1'', created_name = n\<rparr>),
      railway_createService =
        (\<lambda>h p n r b. Inr \<lparr>created_id = ''rs-1'', created_name = n\<rparr>),
      railway_setVariables = (\<lambda>h p s v. Inr ()),
      railway_deleteService = (\<lambda>h i. Inr ()),
      railway_deleteProject = (\<lambda>h i. Inr ()),
      vercel_createProject = (\<lambda>h n g. Inr \<lparr>created_id = ''vp-1'', created_name = n\<rparr>),
      vercel_addEnvVariables = (\<lambda>h i v. Inr ()),
      vercel_getProjectUrl = (\<lambda>h i. Inr ''https://shop.vercel.app''),
      vercel_deleteProject = (\<lambda>h i. Inr ())\<rparr>"

definition sample_args :: deploy_args where
  "sample_args =
     \<lparr>repoPath = ''https://github.com/acme/shop'', projectName = None, serviceName = None,
      environmentVariables = None, progressCallback = True\<rparr>"

definition with_variables :: "env \<Rightarrow> deploy_args" where
  "with_variables e = sample_args\<lparr>environmentVariables := Some e\<rparr>"

definition initial :: orchestrator where
  "initial =
     \<lparr>dryRun = False, trackedResources = [], currentStep = 0, calls = [], events = [],
      pushed = []\<rparr>"

definition three_tracked :: orchestrator where
  "three_tracked =
     initial\<lparr>trackedResources :=
       [entry Neon Project ''np-1'' ''shop-db'',
        entry Railway Project ''rp-1'' ''shop-backend'',
        entry Railway Service ''rs-1'' ''shop'']\<rparr>"

definition vercel_down :: world where
  "vercel_down = sample_world\<lparr>vercel_createProject := (\<lambda>h n g. Inl ''quota exceeded'')\<rparr>"

definition cleanup_fails :: world where
  "cleanup_fails = vercel_down\<lparr>neon_deleteProject := (\<lambda>h i. Inl ''project is locked'')\<rparr>"

definition service_locked :: world where
  "service_locked = sample_world\<lparr>railway_deleteService := (\<lambda>h i. Inl ''service is locked'')\<rparr>"

definition streamlit_world :: world where
  "streamlit_world = sample_world\<lparr>scanRepository := (\<lambda>h p. Inr streamlit_blueprint)\<rparr>"

definition classified :: "ProjectType \<Rightarrow> world" where
  "classified t = sample_world\<lparr>scanRepository := (\<lambda>h p. Inr (sample_blueprint\<lparr>ptype := t\<rparr>))\<rparr>"

section \<open>Name derivation\<close>

lemma git_core_Cons:
  "c # r \<noteq> ''.git'' \<Longrightarrow> git_core (c # r) = c # git_core r"
proof (cases "suffix ''.git'' r")
  case True
  assume "c # r \<noteq> ''.git''"
  from True have "4 \<le> length r" using suffix_length_le by fastforce
  then have "length (c # r) - 4 = Suc (length r - 4)" by simp
  with True show ?thesis by (simp add: git_core_def suffix_Cons)
next
  case False
  assume "c # r \<noteq> ''.git''"
  with False show ?thesis by (auto simp: git_core_def suffix_Cons)
qed

lemma git_tail_noslash:
  "CHR ''/'' \<notin> set r \<Longrightarrow> git_tail r = (r = ''.git'' \<or> r = [])"
  by (auto simp: git_tail_def)

lemma lazy_repo_noslash:
  "CHR ''/'' \<notin> set r \<Longrightarrow> lazy_repo acc r = Some (acc @ git_core r)"
proof (induction r arbitrary: acc)
  case Nil
  show ?case by (simp add: git_core_def)
next
  case (Cons c r)
  show ?case
  proof (cases "c # r = ''.git''")
    case True
    then show ?thesis by (simp add: git_tail_def git_core_def)
  next
    case False
    from Cons.prems have ns: "CHR ''/'' \<notin> set r" and c: "c \<noteq> CHR ''/''" by auto
    from Cons.prems False have "\<not> git_tail (c # r)" by (simp add: git_tail_noslash)
    with c have "lazy_repo acc (c # r) = lazy_repo (acc @ [c]) r" by simp
    also have "\<dots> = Some ((acc @ [c]) @ git_core r)" using Cons.IH [OF ns] .
    finally show ?thesis using False by (simp add: git_core_Cons)
  qed
qed

lemma lazy_repo_slash:
  "CHR ''/'' \<in> set (butlast r) \<Longrightarrow> lazy_repo acc r = None"
proof (induction r arbitrary: acc)
  case Nil
  then show ?case by simp
next
  case (Cons c r)
  from Cons.prems have nt: "\<not> git_tail (c # r)"
    by (auto simp: git_tail_def split: if_splits)
  show ?case
  proof (cases "c = CHR ''/''")
    case True
    with nt show ?thesis by simp
  next
    case False
    with Cons.prems have "CHR ''/'' \<in> set (butlast r)" by (auto split: if_splits)
    with Cons.IH nt False show ?thesis by simp
  qed
qed

lemma github_here_length: "github_here t = Some p \<Longrightarrow> 14 \<le> length t"
proof -
  assume a: "github_here t = Some p"
  then have t10: "take 10 t = ''github.com''" by (auto simp: github_here_def split: if_splits)
  then have "length (take 10 t) = length ''github.com''" by simp
  then have l10: "10 \<le> length t" by simp
  obtain sep r where d: "drop 10 t = sep # r"
    using a t10 by (auto simp: github_here_def split: if_splits list.splits)
  let ?ow = "takeWhile (\<lambda>c. c \<noteq> CHR ''/'') r"
  let ?r2 = "dropWhile (\<lambda>c. c \<noteq> CHR ''/'') r"
  from a t10 d have ow: "?ow \<noteq> []"
    by (auto simp: github_here_def Let_def split: if_splits list.splits)
  from a t10 d obtain x c r4 where r2: "?r2 = x # c # r4"
    by (auto simp: github_here_def Let_def split: if_splits list.splits)
  have "length r = length ?ow + length ?r2"
    by (metis length_append takeWhile_dropWhile_id)
  with ow r2 have "3 \<le> length r" by (cases ?ow) auto
  moreover have "length t = 10 + length (drop 10 t)" using l10 by simp
  ultimately show ?thesis using d by simp
qed

lemma github_here_eval:
  assumes "sep = CHR ''/'' \<or> sep = CHR '':''" and "CHR ''/'' \<notin> set ow"
  shows "github_here (''github.com'' @ sep # ow @ CHR ''/'' # rest) =
    (if ow = [] then None
     else case rest of [] \<Rightarrow> None
          | c # r4 \<Rightarrow> if c = CHR ''/'' then None else map_option (Pair ow) (lazy_repo [c] r4))"
proof -
  have tw: "\<And>rest. takeWhile (\<lambda>c. c \<noteq> CHR ''/'') (ow @ CHR ''/'' # rest) = ow"
    using assms(2) by (simp add: takeWhile_append)
  have dw: "\<And>rest. dropWhile (\<lambda>c. c \<noteq> CHR ''/'') (ow @ CHR ''/'' # rest) = CHR ''/'' # rest"
    using assms(2) by (simp add: dropWhile_append)
  show ?thesis
    using assms(1) by (simp add: github_here_def tw dw Let_def split: list.splits)
qed

lemma github_here_noslash:
  assumes "CHR ''/'' \<notin> set r"
  shows "github_here (''github.com'' @ sep # r) = None"
proof -
  have tw: "dropWhile (\<lambda>c. c \<noteq> CHR ''/'') r = []"
    using assms by auto
  show ?thesis
    by (simp add: github_here_def tw Let_def)
qed

lemma strip_git_core:
  assumes "\<not> suffix ''.git.git'' (c # r4)"
  shows "strip_git (c # r4) = strip_git (c # git_core r4)"
proof (cases "suffix ''.git'' r4")
  case False
  then show ?thesis by (simp add: git_core_def)
next
  case True
  then obtain y where y: "r4 = y @ ''.git''" by (auto simp: suffix_def)
  have "\<not> suffix ''.git'' (c # y)"
  proof
    assume "suffix ''.git'' (c # y)"
    then obtain z where "c # y = z @ ''.git''" by (auto simp: suffix_def)
    then have "c # r4 = z @ ''.git.git''" using y by simp
    then have "suffix ''.git.git'' (c # r4)" unfolding suffix_def by blast
    with assms show False by simp
  qed
  moreover have "git_core r4 = y" using y True by (simp add: git_core_def)
  moreover have "strip_git (c # r4) = c # y"
  proof -
    have "suffix ''.git'' (c # r4)" using True by (rule suffix_ConsI)
    moreover have "take (length (c # r4) - 4) (c # r4) = c # y" using y by simp
    ultimately show ?thesis by (simp add: strip_git_def)
  qed
  ultimately show ?thesis by (simp add: strip_git_def)
qed

lemma github_here_git:
  assumes ns: "\<not> suffix ''/'' s" and ng: "\<not> suffix ''.git.git'' s"
  shows "strip2 (github_here (s @ ''.git'')) = strip2 (github_here s)"
proof (cases "take 10 s = ''github.com''")
  case False
  then have n: "github_here s = None" by (simp add: github_here_def)
  show ?thesis
  proof (cases "10 \<le> length s")
    case True
    with False have "github_here (s @ ''.git'') = None" by (simp add: github_here_def)
    with n show ?thesis by simp
  next
    case False
    then have "length (s @ ''.git'') < 14" by simp
    then have "github_here (s @ ''.git'') = None"
      using github_here_length [of "s @ ''.git''"] by (cases "github_here (s @ ''.git'')") auto
    with n show ?thesis by simp
  qed
next
  case True
  then have s: "s = ''github.com'' @ drop 10 s" by (metis append_take_drop_id)
  show ?thesis
  proof (cases "drop 10 s")
    case Nil
    with s have "s = ''github.com''" by simp
    then show ?thesis by (simp add: github_here_def)
  next
    case (Cons sep r)
    with s have s1: "s = ''github.com'' @ sep # r" by simp
    show ?thesis
    proof (cases "sep = CHR ''/'' \<or> sep = CHR '':''")
      case False
      then show ?thesis by (subst (1 2) s1) (simp add: github_here_def)
    next
      case sep: True
      show ?thesis
      proof (cases "CHR ''/'' \<in> set r")
        case False
        then have "CHR ''/'' \<notin> set (r @ ''.git'')" by simp
        then have "github_here (''github.com'' @ sep # (r @ ''.git'')) = None"
          by (rule github_here_noslash)
        moreover have "github_here (''github.com'' @ sep # r) = None"
          using False by (rule github_here_noslash)
        ultimately show ?thesis by (subst (1 2) s1) simp
      next
        case True
        then obtain ow rest where r: "r = ow @ CHR ''/'' # rest" and ow: "CHR ''/'' \<notin> set ow"
          by (auto dest: split_list_first)
        have s2: "s = ''github.com'' @ sep # ow @ CHR ''/'' # rest" using s1 r by simp
        have s3: "s @ ''.git'' = ''github.com'' @ sep # ow @ CHR ''/'' # (rest @ ''.git'')"
          using s2 by simp
        have rest: "rest \<noteq> []"
        proof
          assume "rest = []"
          with s2 have "s = (''github.com'' @ sep # ow) @ ''/''" by simp
          then have "suffix ''/'' s" unfolding suffix_def by blast
          with ns show False by simp
        qed
        then obtain c r4 where cr: "rest = c # r4" by (cases rest) auto
        have suf: "suffix (c # r4) s"
        proof -
          have "s = (''github.com'' @ sep # ow @ ''/'') @ (c # r4)" using s2 cr by simp
          then show ?thesis unfolding suffix_def by blast
        qed
        have e1: "github_here s = (if ow = [] \<or> c = CHR ''/'' then None
              else map_option (Pair ow) (lazy_repo [c] r4))"
          using github_here_eval [OF sep ow, of "c # r4"] s2 cr by simp
        have e2: "github_here (s @ ''.git'') = (if ow = [] \<or> c = CHR ''/'' then None
              else map_option (Pair ow) (lazy_repo [c] (r4 @ ''.git'')))"
          using github_here_eval [OF sep ow, of "c # r4 @ ''.git''"] s3 cr by simp
        show ?thesis
        proof (cases "ow = [] \<or> c = CHR ''/''")
          case True
          then show ?thesis using e1 e2 by simp
        next
          case False
          show ?thesis
          proof (cases "CHR ''/'' \<in> set r4")
            case True
            have "last r4 \<noteq> CHR ''/''"
            proof
              assume l: "last r4 = CHR ''/''"
              from True have "r4 \<noteq> []" by auto
              then have "butlast r4 @ [last r4] = r4" by (rule append_butlast_last_id)
              with l have "r4 = butlast r4 @ ''/''" by simp
              then have "suffix ''/'' r4" unfolding suffix_def by blast
              then have "suffix ''/'' (c # r4)" by (rule suffix_ConsI)
              then have "suffix ''/'' s" using suf by (rule suffix_order.trans)
              with ns show False by simp
            qed
            moreover from True have "r4 \<noteq> []" by auto
            then have "set r4 = insert (last r4) (set (butlast r4))"
              using append_butlast_last_id [of r4] by (metis list.simps(15) rotate1.simps(2) set_rotate1)
            ultimately have "CHR ''/'' \<in> set (butlast r4)" using True by auto
            then have "lazy_repo [c] r4 = None" by (rule lazy_repo_slash)
            moreover have "CHR ''/'' \<in> set (butlast (r4 @ ''.git''))"
              using True by (simp add: butlast_append)
            then have "lazy_repo [c] (r4 @ ''.git'') = None" by (rule lazy_repo_slash)
            ultimately show ?thesis using e1 e2 by simp
          next
            case False
            then have a: "lazy_repo [c] r4 = Some ([c] @ git_core r4)"
              by (rule lazy_repo_noslash)
            from False have "CHR ''/'' \<notin> set (r4 @ ''.git'')" by simp
            then have "lazy_repo [c] (r4 @ ''.git'') = Some ([c] @ git_core (r4 @ ''.git''))"
              by (rule lazy_repo_noslash)
            moreover have "git_core (r4 @ ''.git'') = r4" by (simp add: git_core_def suffix_def)
            ultimately have b: "lazy_repo [c] (r4 @ ''.git'') = Some (c # r4)" by simp
            have "\<not> suffix ''.git.git'' (c # r4)"
            proof
              assume "suffix ''.git.git'' (c # r4)"
              then have "suffix ''.git.git'' s" using suf by (rule suffix_order.trans)
              with ng show False by simp
            qed
            then have "strip_git (c # r4) = strip_git (c # git_core r4)"
              by (rule strip_git_core)
            then show ?thesis using a b e1 e2 False by (simp add: strip2_def)
          qed
        qed
      qed
    qed
  qed
qed

lemma first_match_git:
  "\<not> suffix ''/'' u \<Longrightarrow> \<not> suffix ''.git.git'' u \<Longrightarrow>
   strip2 (first_match github_here (u @ ''.git'')) = strip2 (first_match github_here u)"
proof (induction u)
  case Nil
  show ?case by (simp add: github_here_def)
next
  case (Cons c cs)
  have h: "strip2 (github_here ((c # cs) @ ''.git'')) = strip2 (github_here (c # cs))"
    using Cons.prems by (rule github_here_git)
  show ?case
  proof (cases "github_here (c # cs)")
    case None
    with h have n: "github_here ((c # cs) @ ''.git'') = None" by (simp add: strip2_def)
    have "\<not> suffix ''/'' cs"
    proof
      assume "suffix ''/'' cs"
      then have "suffix ''/'' (c # cs)" by (rule suffix_ConsI)
      with Cons.prems(1) show False by simp
    qed
    moreover have "\<not> suffix ''.git.git'' cs"
    proof
      assume "suffix ''.git.git'' cs"
      then have "suffix ''.git.git'' (c # cs)" by (rule suffix_ConsI)
      with Cons.prems(2) show False by simp
    qed
    ultimately have "strip2 (first_match github_here (cs @ ''.git'')) =
        strip2 (first_match github_here cs)" by (rule Cons.IH)
    with None n show ?thesis by simp
  next
    case (Some p)
    with h obtain q where q: "github_here ((c # cs) @ ''.git'') = Some q"
      by (cases "github_here ((c # cs) @ ''.git'')") (auto simp: strip2_def)
    with Some h show ?thesis by simp
  qed
qed

lemma extractGitHubRepo_strip2:
  "extractGitHubRepo u =
     map_option (\<lambda>(ow, g). ow @ ''/'' @ g) (strip2 (first_match github_here u))"
  by (simp add: extractGitHubRepo_def strip2_def split: option.splits)

text \<open>
  Claim C8. The derived name is a function of the repository reference alone, so that
  deriving it twice gives the same result. A reference that ends in the repository name
  (it ends neither in a slash nor in \<^verbatim>\<open>.git\<close>) and the same reference followed by
  \<^verbatim>\<open>.git\<close> give the same \<^verbatim>\<open>owner/repo\<close> and the same derived name.
\<close>

theorem deriveName_git_suffix:
  "deriveName x = deriveName x \<and>
   (\<not> suffix ''/'' u \<longrightarrow> \<not> suffix ''.git'' u \<longrightarrow>
      extractGitHubRepo (u @ ''.git'') = extractGitHubRepo u \<and>
      deriveName (u @ ''.git'') = deriveName u)"
proof -
  {
    assume slash: "\<not> suffix ''/'' u" and git: "\<not> suffix ''.git'' u"
    have twice: "\<not> suffix ''.git.git'' u"
    proof
      assume "suffix ''.git.git'' u"
      then obtain zs where "u = zs @ ''.git.git''" by (rule suffixE)
      then have "u = (zs @ ''.git'') @ ''.git''" by simp
      then have "suffix ''.git'' u" by (rule suffixI)
      with git show False by (rule notE)
    qed
    from slash twice have "strip2 (first_match github_here (u @ ''.git'')) =
        strip2 (first_match github_here u)" by (rule first_match_git)
    then have e: "extractGitHubRepo (u @ ''.git'') = extractGitHubRepo u"
      by (simp only: extractGitHubRepo_strip2)
    then have "deriveName (u @ ''.git'') = deriveName u"
      by (simp only: deriveName_def)
    note e this
  }
  then show ?thesis by blast
qed

text \<open>The same repository with and without the suffix.\<close>

theorem deriveName_git_suffix_witness:
  "\<not> suffix ''/'' ''https://github.com/acme/My-Shop_api'' \<and>
   \<not> suffix ''.git'' ''https://github.com/acme/My-Shop_api'' \<and>
   extractGitHubRepo ''https://github.com/acme/My-Shop_api.git'' = Some ''acme/My-Shop_api'' \<and>
   extractGitHubRepo ''https://github.com/acme/My-Shop_api'' = Some ''acme/My-Shop_api'' \<and>
   deriveName ''https://github.com/acme/My-Shop_api.git'' = Some ''myshopapi'' \<and>
   deriveName ''https://github.com/acme/My-Shop_api'' = Some ''myshopapi''"
proof -
  have a: "\<not> suffix ''/'' ''https://github.com/acme/My-Shop_api''"
    by (simp add: suffix_def)
  have b: "\<not> suffix ''.git'' ''https://github.com/acme/My-Shop_api''"
    by (simp add: suffix_def)
  have c: "deriveName ''https://github.com/acme/My-Shop_api'' = Some ''myshopapi''"
    by code_simp
  have d: "extractGitHubRepo ''https://github.com/acme/My-Shop_api'' = Some ''acme/My-Shop_api''"
    by code_simp
  from deriveName_git_suffix [of _ "''https://github.com/acme/My-Shop_api''"] a b
  have "extractGitHubRepo (''https://github.com/acme/My-Shop_api'' @ ''.git'') =
          extractGitHubRepo ''https://github.com/acme/My-Shop_api'' \<and>
        deriveName (''https://github.com/acme/My-Shop_api'' @ ''.git'') =
          deriveName ''https://github.com/acme/My-Shop_api''" by blast
  with a b c d show ?thesis by simp
qed

section \<open>What each step leaves unchanged\<close>

lemma sendProgress_frame [simp]:
  "calls (sendProgress m c d st) = calls st"
  "trackedResources (sendProgress m c d st) = trackedResources st"
  "pushed (sendProgress m c d st) = pushed st"
  "dryRun (sendProgress m c d st) = dryRun st"
  by (simp_all add: sendProgress_def)

lemma sendRollbackProgress_frame [simp]:
  "calls (sendRollbackProgress m c st) = calls st"
  "trackedResources (sendRollbackProgress m c st) = trackedResources st"
  "pushed (sendRollbackProgress m c st) = pushed st"
  "dryRun (sendRollbackProgress m c st) = dryRun st"
  by (simp_all add: sendRollbackProgress_def)

lemma trackResource_frame [simp]:
  "calls (trackResource p t i n st) = calls st"
  "dryRun (trackResource p t i n st) = dryRun st"
  "trackedResources (trackResource p t i n st) =
     trackedResources st @ [\<lparr>res_platform = p, res_type = t, res_id = i, res_name = n\<rparr>]"
  "pushed (trackResource p t i n st) =
     pushed st @ [\<lparr>res_platform = p, res_type = t, res_id = i, res_name = n\<rparr>]"
  by (simp_all add: trackResource_def Let_def)

lemma invoke_frame [simp]:
  "calls (fst (invoke c f st)) = calls st @ [c]"
  "trackedResources (fst (invoke c f st)) = trackedResources st"
  "pushed (fst (invoke c f st)) = pushed st"
  "dryRun (fst (invoke c f st)) = dryRun st"
  "events (fst (invoke c f st)) = events st"
  "snd (invoke c f st) = f (calls st)"
  by (simp_all add: invoke_def)

lemma enter_frame [simp]:
  "calls (enter c st) = calls st @ [c]"
  "trackedResources (enter c st) = trackedResources st"
  "pushed (enter c st) = pushed st"
  "dryRun (enter c st) = dryRun st"
  "events (enter c st) = events st"
  by (simp_all add: enter_def)

lemma fresh_frame [simp]:
  "trackedResources (fresh st) = []" "calls (fresh st) = calls st"
  "pushed (fresh st) = pushed st" "dryRun (fresh st) = dryRun st"
  by (simp_all add: fresh_def)

section \<open>Rollback\<close>

lemma delete_with_calls:
  "calls (delete_with a s c f r st) = calls st @ [c]"
  "trackedResources (delete_with a s c f r st) = trackedResources st"
  "pushed (delete_with a s c f r st) = pushed st"
  "dryRun (delete_with a s c f r st) = dryRun st"
  by (auto simp: delete_with_def delete_failed_def invoke_def split: sum.splits prod.splits)

lemma rollback_resource_calls:
  "calls (rollback_resource w r st) =
     calls st @ (case delete_call r of None \<Rightarrow> [] | Some c \<Rightarrow> [c])"
  by (cases "res_platform r"; cases "res_type r")
     (simp_all add: rollback_resource_def delete_call_def delete_with_calls)

lemma rollback_resource_frame [simp]:
  "trackedResources (rollback_resource w r st) = trackedResources st"
  "pushed (rollback_resource w r st) = pushed st"
  "dryRun (rollback_resource w r st) = dryRun st"
  by (simp_all add: rollback_resource_def delete_with_calls)

lemma rollback_loop_frame [simp]:
  "trackedResources (rollback_loop w rs st) = trackedResources st"
  "pushed (rollback_loop w rs st) = pushed st"
  "dryRun (rollback_loop w rs st) = dryRun st"
  by (induction rs arbitrary: st) simp_all

lemma rollback_loop_calls:
  "calls (rollback_loop w rs st) = calls st @ List.map_filter delete_call rs"
  by (induction rs arbitrary: st)
     (auto simp: rollback_resource_calls List.map_filter_simps split: option.splits)

lemma rollback_calls:
  "calls (rollback w msg st) = calls st @ List.map_filter delete_call (rev (trackedResources st))"
  by (simp add: rollback_def Let_def rollback_loop_calls)

lemma rollback_frame [simp]:
  "trackedResources (rollback w msg st) = []"
  "pushed (rollback w msg st) = pushed st"
  "dryRun (rollback w msg st) = dryRun st"
  by (simp_all add: rollback_def Let_def)

lemma rollback_last_event:
  "last (events (rollback w msg st)) =
     \<lparr>ev_step = 0, ev_total = 1, ev_message = ''Rollback completed. All resources cleaned up.'',
      ev_platform = System, ev_completed = False\<rparr>"
  by (simp add: rollback_def Let_def sendRollbackProgress_def)

lemma delete_with_events_mono:
  "set (events st) \<subseteq> set (events (delete_with a s c f r st))"
  by (auto simp: delete_with_def delete_failed_def invoke_def sendRollbackProgress_def
           split: sum.splits prod.splits)

lemma rollback_resource_events_mono:
  "set (events st) \<subseteq> set (events (rollback_resource w r st))"
  using delete_with_events_mono by (simp add: rollback_resource_def)

lemma rollback_loop_events_mono:
  "set (events st) \<subseteq> set (events (rollback_loop w rs st))"
proof (induction rs arbitrary: st)
  case Nil
  show ?case by simp
next
  case (Cons r rs)
  have "set (events st) \<subseteq> set (events (rollback_resource w r st))"
    by (rule rollback_resource_events_mono)
  also have "\<dots> \<subseteq> set (events (rollback_loop w rs (rollback_resource w r st)))"
    by (rule Cons.IH)
  finally show ?case by simp
qed

lemma delete_with_failed:
  assumes "f (calls st) = Inl m"
  shows "failure_step r m (Suc (length (trackedResources st)))
         \<in> set (events (delete_with a s c f r st))"
  using assms
  by (simp add: failure_step_def delete_with_def delete_failed_def invoke_def
        sendRollbackProgress_def)

lemma rollback_resource_failed:
  assumes "delete_answer w (calls st) r = Inl m"
  shows "failure_step r m (Suc (length (trackedResources st)))
         \<in> set (events (rollback_resource w r st))"
  using assms
  by (cases "res_platform r"; cases "res_type r")
     (simp_all add: rollback_resource_def delete_answer_def delete_with_failed)

lemma rollback_loop_failed:
  assumes "delete_answer w (calls st @ List.map_filter delete_call earlier) r = Inl m"
  shows "failure_step r m (Suc (length (trackedResources st)))
         \<in> set (events (rollback_loop w (earlier @ r # later) st))"
  using assms
proof (induction earlier arbitrary: st)
  case Nil
  then have "delete_answer w (calls st) r = Inl m" by (simp add: List.map_filter_simps)
  then have "failure_step r m (Suc (length (trackedResources st)))
         \<in> set (events (rollback_resource w r st))" by (rule rollback_resource_failed)
  then show ?case using rollback_loop_events_mono [of "rollback_resource w r st" w later]
    by auto
next
  case (Cons p earlier)
  let ?st = "rollback_resource w p st"
  have "calls ?st @ List.map_filter delete_call earlier =
        calls st @ List.map_filter delete_call (p # earlier)"
    by (simp add: rollback_resource_calls List.map_filter_simps split: option.splits)
  with Cons.prems have "delete_answer w (calls ?st @ List.map_filter delete_call earlier) r = Inl m"
    by simp
  from Cons.IH [OF this] show ?case by simp
qed

lemma rollback_failed:
  assumes "rev (trackedResources st) = earlier @ r # later"
    and "delete_answer w (calls st @ List.map_filter delete_call earlier) r = Inl m"
  shows "failure_step r m (Suc (length (trackedResources st))) \<in> set (events (rollback w msg st))"
proof -
  let ?st1 = "sendRollbackProgress (''Deployment failed: '' @ msg @
      ''. Initiating automatic rollback to clean up all created resources and prevent charges.'')
      System st"
  have "delete_answer w (calls ?st1 @ List.map_filter delete_call earlier) r = Inl m"
    using assms(2) by simp
  then have "failure_step r m (Suc (length (trackedResources ?st1)))
         \<in> set (events (rollback_loop w (earlier @ r # later) ?st1))"
    by (rule rollback_loop_failed)
  then show ?thesis
    using assms(1) by (simp add: rollback_def Let_def sendRollbackProgress_def)
qed

text \<open>
  Claim C5. Whatever the delete calls answer, \<^verbatim>\<open>rollback\<close> makes the delete call of
  every tracked resource, from the last tracked to the first, so a delete that throws
  does not keep the earlier resources from their delete calls; it then leaves the
  tracker empty, and its last event is the \<^verbatim>\<open>system\<close> event that the rollback
  completed. If the delete call for a resource throws, with the resources \<open>earlier\<close>
  in the walk already handled, an event on the platform of that resource names its
  platform and type and gives the reason.
\<close>

theorem rollback_best_effort:
  "calls (rollback w msg st) =
     calls st @ List.map_filter delete_call (rev (trackedResources st)) \<and>
   trackedResources (rollback w msg st) = [] \<and>
   last (events (rollback w msg st)) =
     \<lparr>ev_step = 0, ev_total = 1,
      ev_message = ''Rollback completed. All resources cleaned up.'',
      ev_platform = System, ev_completed = False\<rparr> \<and>
   (rev (trackedResources st) = earlier @ resource # later \<longrightarrow>
    delete_answer w (calls st @ List.map_filter delete_call earlier) resource = Inl reason \<longrightarrow>
      \<lparr>ev_step = 0, ev_total = length (trackedResources st) + 1,
       ev_message = ''Failed to delete '' @ platform_value (res_platform resource) @ '' '' @
                    resource_type_value (res_type resource) @ '': '' @ reason,
       ev_platform = On (res_platform resource), ev_completed = False\<rparr>
        \<in> set (events (rollback w msg st)))"
proof -
  have a: "calls (rollback w msg st) =
      calls st @ List.map_filter delete_call (rev (trackedResources st))"
    by (rule rollback_calls)
  have c: "trackedResources (rollback w msg st) = []" by simp
  {
    assume "rev (trackedResources st) = earlier @ resource # later"
      and "delete_answer w (calls st @ List.map_filter delete_call earlier) resource =
           Inl reason"
    then have "failure_step resource reason (Suc (length (trackedResources st)))
        \<in> set (events (rollback w msg st))" by (rule rollback_failed)
    then have "\<lparr>ev_step = 0, ev_total = length (trackedResources st) + 1,
       ev_message = ''Failed to delete '' @ platform_value (res_platform resource) @ '' '' @
                    resource_type_value (res_type resource) @ '': '' @ reason,
       ev_platform = On (res_platform resource), ev_completed = False\<rparr>
        \<in> set (events (rollback w msg st))"
      unfolding failure_step_def by simp
  }
  with a c rollback_last_event [of w msg st] show ?thesis by blast
qed

text \<open>
  Three resources are tracked and the delete of the Railway service, the first in the
  walk, throws: the Railway project and the Neon project are deleted all the same.
\<close>

theorem rollback_best_effort_witness:
  "rev (trackedResources three_tracked) =
     [] @ entry Railway Service ''rs-1'' ''shop'' #
       [entry Railway Project ''rp-1'' ''shop-backend'', entry Neon Project ''np-1'' ''shop-db''] \<and>
   delete_answer service_locked (calls three_tracked @ List.map_filter delete_call [])
     (entry Railway Service ''rs-1'' ''shop'') = Inl ''service is locked'' \<and>
   calls (rollback service_locked ''boom'' three_tracked) =
     [RailwayDeleteService ''rs-1'', RailwayDeleteProject ''rp-1'', NeonDeleteProject ''np-1''] \<and>
   \<lparr>ev_step = 0, ev_total = 4,
    ev_message = ''Failed to delete railway service: service is locked'',
    ev_platform = On Railway, ev_completed = False\<rparr>
     \<in> set (events (rollback service_locked ''boom'' three_tracked)) \<and>
   trackedResources (rollback service_locked ''boom'' three_tracked) = [] \<and>
   last (events (rollback service_locked ''boom'' three_tracked)) =
     \<lparr>ev_step = 0, ev_total = 1,
      ev_message = ''Rollback completed. All resources cleaned up.'',
      ev_platform = System, ev_completed = False\<rparr>"
proof -
  let ?svc = "entry Railway Service ''rs-1'' ''shop''"
  let ?later = "[entry Railway Project ''rp-1'' ''shop-backend'',
                 entry Neon Project ''np-1'' ''shop-db'']"
  have h1: "rev (trackedResources three_tracked) = [] @ ?svc # ?later" by code_simp
  have h2: "delete_answer service_locked (calls three_tracked @ List.map_filter delete_call [])
     ?svc = Inl ''service is locked''" by code_simp
  have e1: "calls three_tracked @ List.map_filter delete_call (rev (trackedResources three_tracked)) =
     [RailwayDeleteService ''rs-1'', RailwayDeleteProject ''rp-1'', NeonDeleteProject ''np-1'']"
    by code_simp
  have e2: "\<lparr>ev_step = 0, ev_total = length (trackedResources three_tracked) + 1,
          ev_message = ''Failed to delete '' @ platform_value (res_platform ?svc) @ '' '' @
                       resource_type_value (res_type ?svc) @ '': '' @ ''service is locked'',
          ev_platform = On (res_platform ?svc), ev_completed = False\<rparr> =
      \<lparr>ev_step = 0, ev_total = 4,
       ev_message = ''Failed to delete railway service: service is locked'',
       ev_platform = On Railway, ev_completed = False\<rparr>"
    by code_simp
  from rollback_best_effort
    [of service_locked "''boom''" three_tracked "[]" ?svc ?later "''service is locked''"]
  show ?thesis
    unfolding e1 e2 using h1 h2 by blast
qed

section \<open>The steps of the full pipeline\<close>

lemma provisionDatabase_ok:
  assumes "provisionDatabase w n st = (st', Inr nr)"
  shows "calls st' = calls st @ [NeonProvisionDatabase n, NeonCreateProject n,
                                 NeonGetDatabaseUrl (n_projectId nr)]"
    and "neon_getDatabaseUrl w (calls st @ [NeonProvisionDatabase n, NeonCreateProject n])
           (n_projectId nr) = Inr (n_databaseUrl nr)"
    and "trackedResources st' = trackedResources st" and "pushed st' = pushed st"
    and "dryRun st' = dryRun st"
  using assms
  by (auto simp: provisionDatabase_def invoke_def enter_def split: sum.splits)

lemma provisionDatabase_any:
  assumes "provisionDatabase w n st = (st', out)"
  shows "\<exists>ext. calls st' = calls st @ NeonProvisionDatabase n # ext \<and> neon_only ext"
    and "trackedResources st' = trackedResources st" and "pushed st' = pushed st"
    and "dryRun st' = dryRun st"
  using assms
  by (auto simp: provisionDatabase_def invoke_def enter_def neon_only_def split: sum.splits)

lemma provisionBackend_any:
  assumes "provisionBackend w pn sn repo br vars flag st = (st', out)"
  shows "\<exists>ext. calls st' = calls st @ RailwayProvisionBackend pn sn repo br vars flag # ext \<and>
           list_all (inner_call (final_variables vars flag)) ext"
    and "trackedResources st' = trackedResources st" and "pushed st' = pushed st"
    and "dryRun st' = dryRun st"
  using assms
  by (auto simp: provisionBackend_def invoke_def enter_def final_variables_def Let_def
           split: sum.splits if_splits)

lemma provisionFrontend_any:
  assumes "provisionFrontend w pn repo vars st = (st', out)"
  shows "\<exists>ext. calls st' = calls st @ VercelProvisionFrontend pn repo vars # ext \<and> vercel_only ext"
    and "trackedResources st' = trackedResources st" and "pushed st' = pushed st"
    and "dryRun st' = dryRun st"
  using assms
  by (auto simp: provisionFrontend_def invoke_def enter_def vercel_only_def Let_def
           split: sum.splits if_splits option.splits)

lemma discover_any:
  assumes "discover w args st = (st', out)"
  shows "calls st' = calls st" and "trackedResources st' = trackedResources st"
    and "pushed st' = pushed st" and "dryRun st' = dryRun st"
    and "out = scanRepository w (calls st) (repoPath args)"
  using assms by (auto simp: discover_def Let_def split: sum.splits)

lemma deploy_neon_ok:
  assumes "deploy_neon w base st = (st', Inr nr)"
  shows "calls st' = calls st @ [NeonProvisionDatabase (base @ ''-db''),
           NeonCreateProject (base @ ''-db''), NeonGetDatabaseUrl (n_projectId nr)]"
    and "neon_getDatabaseUrl w (calls st @ [NeonProvisionDatabase (base @ ''-db''),
           NeonCreateProject (base @ ''-db'')]) (n_projectId nr) = Inr (n_databaseUrl nr)"
    and "trackedResources st' = trackedResources st @
           [\<lparr>res_platform = Neon, res_type = Project, res_id = n_projectId nr,
             res_name = Some (n_projectName nr)\<rparr>]"
    and "pushed st' = pushed st @
           [\<lparr>res_platform = Neon, res_type = Project, res_id = n_projectId nr,
             res_name = Some (n_projectName nr)\<rparr>]"
    and "dryRun st' = dryRun st"
proof -
  let ?s = "sendProgress ''Creating Neon database project...'' (On Neon) False
              (sendProgress ''Deploying to Neon (Database)'' (On Neon) False st)"
  from assms obtain s3 where p: "provisionDatabase w (base @ ''-db'') ?s = (s3, Inr nr)"
    and st': "st' = sendProgress ''DATABASE_URL retrieved'' (On Neon) True
        (sendProgress ''Neon database created successfully'' (On Neon) True
          (trackResource Neon Project (n_projectId nr) (Some (n_projectName nr)) s3))"
    by (auto simp: deploy_neon_def Let_def split: prod.splits sum.splits)
  note f = provisionDatabase_ok [OF p]
  show "calls st' = calls st @ [NeonProvisionDatabase (base @ ''-db''),
           NeonCreateProject (base @ ''-db''), NeonGetDatabaseUrl (n_projectId nr)]"
    using f(1) st' by simp
  show "neon_getDatabaseUrl w (calls st @ [NeonProvisionDatabase (base @ ''-db''),
           NeonCreateProject (base @ ''-db'')]) (n_projectId nr) = Inr (n_databaseUrl nr)"
    using f(2) by simp
  show "trackedResources st' = trackedResources st @
           [\<lparr>res_platform = Neon, res_type = Project, res_id = n_projectId nr,
             res_name = Some (n_projectName nr)\<rparr>]"
    using f(3) st' by simp
  show "pushed st' = pushed st @
           [\<lparr>res_platform = Neon, res_type = Project, res_id = n_projectId nr,
             res_name = Some (n_projectName nr)\<rparr>]"
    using f(4) st' by simp
  show "dryRun st' = dryRun st" using f(5) st' by simp
qed

lemma deploy_neon_fail:
  assumes "deploy_neon w base st = (st', Inl e)"
  shows "\<exists>ext. calls st' = calls st @ ext \<and> neon_only ext"
    and "trackedResources st' = trackedResources st" and "pushed st' = pushed st"
    and "dryRun st' = dryRun st"
proof -
  let ?s = "sendProgress ''Creating Neon database project...'' (On Neon) False
              (sendProgress ''Deploying to Neon (Database)'' (On Neon) False st)"
  from assms have p: "provisionDatabase w (base @ ''-db'') ?s = (st', Inl e)"
    by (auto simp: deploy_neon_def Let_def split: prod.splits sum.splits)
  note f = provisionDatabase_any [OF p]
  from f(1) obtain ext where "calls st' = calls st @ NeonProvisionDatabase (base @ ''-db'') # ext"
    and "neon_only ext" by auto
  then have "calls st' = calls st @ (NeonProvisionDatabase (base @ ''-db'') # ext) \<and>
      neon_only (NeonProvisionDatabase (base @ ''-db'') # ext)" by (simp add: neon_only_def)
  then show "\<exists>ext. calls st' = calls st @ ext \<and> neon_only ext" by blast
  show "trackedResources st' = trackedResources st" using f(2) by simp
  show "pushed st' = pushed st" using f(3) by simp
  show "dryRun st' = dryRun st" using f(4) by simp
qed

lemma deploy_railway_unfold:
  assumes "deploy_railway w args bp repo base svc nr st = (st', out)"
  obtains s5 s6 out' where
    "provisionBackend w (base @ ''-backend'') svc repo
       (or_else (extractBranchFromUrl (repoPath args)) ''main'')
       (Some (railwayEnvVars (n_databaseUrl nr) (environmentVariables args)))
       (streamlit_flag bp) s5 = (s6, out')"
    and "calls s5 = calls st" and "trackedResources s5 = trackedResources st"
    and "pushed s5 = pushed st" and "dryRun s5 = dryRun st"
    and "(\<exists>e. out' = Inl e \<and> out = Inl e \<and> st' = s6) \<or>
         (\<exists>rr. out' = Inr rr \<and>
            out = Inr (rr, if \<not> dryRun st then
                             Some (''https://'' @ r_serviceName rr @ ''.railway.app'')
                           else None) \<and>
            calls st' = calls s6 \<and> dryRun st' = dryRun s6 \<and>
            trackedResources st' = trackedResources s6 @
              [\<lparr>res_platform = Railway, res_type = Project, res_id = r_projectId rr,
                res_name = Some (r_projectName rr)\<rparr>,
               \<lparr>res_platform = Railway, res_type = Service, res_id = r_serviceId rr,
                res_name = Some (r_serviceName rr)\<rparr>] \<and>
            pushed st' = pushed s6 @
              [\<lparr>res_platform = Railway, res_type = Project, res_id = r_projectId rr,
                res_name = Some (r_projectName rr)\<rparr>,
               \<lparr>res_platform = Railway, res_type = Service, res_id = r_serviceId rr,
                res_name = Some (r_serviceName rr)\<rparr>])"
proof -
  let ?s3 = "sendProgress ''Connecting GitHub repository...'' (On Railway) False
      (sendProgress ''Creating Railway backend project...'' (On Railway) False
        (sendProgress ''Deploying to Railway (Backend)'' (On Railway) False st))"
  let ?s4 = "if streamlit_flag bp then
      sendProgress ''Detected Streamlit app - applying Railway Streamlit optimizer...''
        (On Railway) False ?s3 else ?s3"
  let ?s5 = "sendProgress ''Setting environment variables...'' (On Railway) False ?s4"
  obtain s6 out' where p: "provisionBackend w (base @ ''-backend'') svc repo
       (or_else (extractBranchFromUrl (repoPath args)) ''main'')
       (Some (railwayEnvVars (n_databaseUrl nr) (environmentVariables args)))
       (streamlit_flag bp) ?s5 = (s6, out')" by (cases "provisionBackend w (base @ ''-backend'') svc repo
       (or_else (extractBranchFromUrl (repoPath args)) ''main'')
       (Some (railwayEnvVars (n_databaseUrl nr) (environmentVariables args)))
       (streamlit_flag bp) ?s5") auto
  have d: "dryRun s6 = dryRun st" using provisionBackend_any(4) [OF p] by simp
  have "(\<exists>e. out' = Inl e \<and> out = Inl e \<and> st' = s6) \<or>
         (\<exists>rr. out' = Inr rr \<and>
            out = Inr (rr, if \<not> dryRun st then
                             Some (''https://'' @ r_serviceName rr @ ''.railway.app'')
                           else None) \<and>
            calls st' = calls s6 \<and> dryRun st' = dryRun s6 \<and>
            trackedResources st' = trackedResources s6 @
              [\<lparr>res_platform = Railway, res_type = Project, res_id = r_projectId rr,
                res_name = Some (r_projectName rr)\<rparr>,
               \<lparr>res_platform = Railway, res_type = Service, res_id = r_serviceId rr,
                res_name = Some (r_serviceName rr)\<rparr>] \<and>
            pushed st' = pushed s6 @
              [\<lparr>res_platform = Railway, res_type = Project, res_id = r_projectId rr,
                res_name = Some (r_projectName rr)\<rparr>,
               \<lparr>res_platform = Railway, res_type = Service, res_id = r_serviceId rr,
                res_name = Some (r_serviceName rr)\<rparr>])"
    using assms p d unfolding deploy_railway_def Let_def
    by (cases out') auto
  moreover have "calls ?s5 = calls st" "trackedResources ?s5 = trackedResources st"
    "pushed ?s5 = pushed st" "dryRun ?s5 = dryRun st" by simp_all
  ultimately show ?thesis using that p by blast
qed

lemma deploy_vercel_any:
  assumes "deploy_vercel w args repo base url st = (st', out)"
  shows "\<exists>ext. calls st' = calls st @ ext \<and> vercel_only ext"
    and "dryRun st' = dryRun st"
    and "case out of
           Inl e \<Rightarrow> trackedResources st' = trackedResources st \<and> pushed st' = pushed st
         | Inr vr \<Rightarrow>
             trackedResources st' = trackedResources st @
               [\<lparr>res_platform = Vercel, res_type = Project, res_id = v_projectId vr,
                 res_name = Some (v_projectName vr)\<rparr>] \<and>
             pushed st' = pushed st @
               [\<lparr>res_platform = Vercel, res_type = Project, res_id = v_projectId vr,
                 res_name = Some (v_projectName vr)\<rparr>]"
proof -
  let ?s4 = "sendProgress ''Setting environment variables (NEXT_PUBLIC_API_URL)...''
      (On Vercel) False
      (sendProgress ''Connecting GitHub repository...'' (On Vercel) False
        (sendProgress ''Creating Vercel frontend project...'' (On Vercel) False
          (sendProgress ''Deploying to Vercel (Frontend)'' (On Vercel) False st)))"
  obtain s5 out' where p: "provisionFrontend w (base @ ''-frontend'') (Some repo)
      (Some (vercelEnvVars url (environmentVariables args))) ?s4 = (s5, out')"
    by (cases "provisionFrontend w (base @ ''-frontend'') (Some repo)
      (Some (vercelEnvVars url (environmentVariables args))) ?s4") auto
  note f = provisionFrontend_any [OF p]
  from f(1) obtain ext where e: "calls s5 = calls st @
      VercelProvisionFrontend (base @ ''-frontend'') (Some repo)
        (Some (vercelEnvVars url (environmentVariables args))) # ext" and v: "vercel_only ext"
    by auto
  have r: "(\<exists>e. out' = Inl e \<and> out = Inl e \<and> st' = s5) \<or>
      (\<exists>vr. out' = Inr vr \<and> out = Inr vr \<and> calls st' = calls s5 \<and> dryRun st' = dryRun s5 \<and>
         trackedResources st' = trackedResources s5 @
               [\<lparr>res_platform = Vercel, res_type = Project, res_id = v_projectId vr,
                 res_name = Some (v_projectName vr)\<rparr>] \<and>
         pushed st' = pushed s5 @
               [\<lparr>res_platform = Vercel, res_type = Project, res_id = v_projectId vr,
                 res_name = Some (v_projectName vr)\<rparr>])"
    using assms p unfolding deploy_vercel_def Let_def by (cases out') auto
  have "calls st' = calls s5" using r by auto
  with e v have "calls st' = calls st @ (VercelProvisionFrontend (base @ ''-frontend'') (Some repo)
        (Some (vercelEnvVars url (environmentVariables args))) # ext) \<and>
      vercel_only (VercelProvisionFrontend (base @ ''-frontend'') (Some repo)
        (Some (vercelEnvVars url (environmentVariables args))) # ext)"
    by (simp add: vercel_only_def)
  then show "\<exists>ext. calls st' = calls st @ ext \<and> vercel_only ext" by blast
  show "dryRun st' = dryRun st" using r f(4) by auto
  show "case out of
           Inl e \<Rightarrow> trackedResources st' = trackedResources st \<and> pushed st' = pushed st
         | Inr vr \<Rightarrow>
             trackedResources st' = trackedResources st @
               [\<lparr>res_platform = Vercel, res_type = Project, res_id = v_projectId vr,
                 res_name = Some (v_projectName vr)\<rparr>] \<and>
             pushed st' = pushed st @
               [\<lparr>res_platform = Vercel, res_type = Project, res_id = v_projectId vr,
                 res_name = Some (v_projectName vr)\<rparr>]"
    using r f(2,3) by auto
qed

text \<open>
  How the stages of the \<^verbatim>\<open>try\<close> block can end: with a failure, every resource tracked
  so far being one that the rollback can delete, or with the result, the tracker then
  holding the four resources of the run after what it held before.
\<close>

lemma stages_cases:
  assumes a: "stages w args s0 = (s, out)"
  obtains
    (early) e where "out = Inl e" and "calls s = calls s0"
      and "trackedResources s = trackedResources s0" and "pushed s = pushed s0"
  | (neon) e ext where "out = Inl e" and "calls s = calls s0 @ ext" and "neon_only ext"
      and "trackedResources s = trackedResources s0" and "pushed s = pushed s0"
  | (later) bp nm and nr :: NeonResult and pn sn repo br ext vext where
      "scanRepository w (calls s0) (repoPath args) = Inr bp"
      and "neon_getDatabaseUrl w (calls s0 @ [NeonProvisionDatabase nm, NeonCreateProject nm])
             (n_projectId nr) = Inr (n_databaseUrl nr)"
      and "calls s = calls s0 @
             [NeonProvisionDatabase nm, NeonCreateProject nm, NeonGetDatabaseUrl (n_projectId nr)] @
             RailwayProvisionBackend pn sn repo br
               (Some (railwayEnvVars (n_databaseUrl nr) (environmentVariables args)))
               (streamlit_flag bp) # ext @ vext"
      and "list_all (inner_call (final_variables
             (Some (railwayEnvVars (n_databaseUrl nr) (environmentVariables args)))
             (streamlit_flag bp))) ext"
      and "vercel_only vext"
      and "(\<exists>e. out = Inl e \<and>
              trackedResources s = trackedResources s0 @
                [entry Neon Project (n_projectId nr) (n_projectName nr)] \<and>
              pushed s = pushed s0 @ [entry Neon Project (n_projectId nr) (n_projectName nr)]) \<or>
           (\<exists>e (rr :: RailwayResult). out = Inl e \<and>
              trackedResources s = trackedResources s0 @
                [entry Neon Project (n_projectId nr) (n_projectName nr),
                 entry Railway Project (r_projectId rr) (r_projectName rr),
                 entry Railway Service (r_serviceId rr) (r_serviceName rr)] \<and>
              pushed s = pushed s0 @
                [entry Neon Project (n_projectId nr) (n_projectName nr),
                 entry Railway Project (r_projectId rr) (r_projectName rr),
                 entry Railway Service (r_serviceId rr) (r_serviceName rr)]) \<or>
           (\<exists>r (rr :: RailwayResult) (vr :: VercelResult). out = Inr r \<and> blueprint r = bp \<and>
              neon_projectId r = n_projectId nr \<and> neon_databaseUrl r = n_databaseUrl nr \<and>
              railway_projectId r = r_projectId rr \<and> railway_serviceId r = r_serviceId rr \<and>
              vercel_projectId r = v_projectId vr \<and>
              trackedResources s = trackedResources s0 @
                [entry Neon Project (n_projectId nr) (n_projectName nr),
                 entry Railway Project (r_projectId rr) (r_projectName rr),
                 entry Railway Service (r_serviceId rr) (r_serviceName rr),
                 entry Vercel Project (v_projectId vr) (v_projectName vr)] \<and>
              pushed s = pushed s0 @
                [entry Neon Project (n_projectId nr) (n_projectName nr),
                 entry Railway Project (r_projectId rr) (r_projectName rr),
                 entry Railway Service (r_serviceId rr) (r_serviceName rr),
                 entry Vercel Project (v_projectId vr) (v_projectName vr)])"
proof -
  obtain s1 o1 where d: "discover w args s0 = (s1, o1)" by (cases "discover w args s0") auto
  note df = discover_any [OF d]
  show thesis
  proof (cases o1)
    case (Inl e)
    with a d have "s = s1" and "out = Inl e" by (simp_all add: stages_def)
    then show thesis using early df by simp
  next
    case bp: (Inr bp)
    then have scan: "scanRepository w (calls s0) (repoPath args) = Inr bp" using df(5) by simp
    show thesis
    proof (cases "prepare w args s1")
      case (Inl e)
      with a d bp have "s = s1" and "out = Inl e" by (simp_all add: stages_def)
      then show thesis using early df by simp
    next
      case (Inr t)
      obtain repo base svc where t: "t = (repo, base, svc)" by (cases t) auto
      obtain s2 o2 where n: "deploy_neon w base s1 = (s2, o2)"
        by (cases "deploy_neon w base s1") auto
      show thesis
      proof (cases o2)
        case (Inl e)
        with a d bp Inr t n have "s = s2" and "out = Inl e" by (simp_all add: stages_def)
        moreover note nf = deploy_neon_fail [OF n [unfolded Inl]]
        ultimately show thesis using neon [of e] df by auto
      next
        case nr: (Inr nr)
        note nf = deploy_neon_ok [OF n [unfolded nr]]
        obtain s3 o3 where r: "deploy_railway w args bp repo base svc nr s2 = (s3, o3)"
          by (cases "deploy_railway w args bp repo base svc nr s2") auto
        from deploy_railway_unfold [OF r] obtain s5 s6 out' where
          pb: "provisionBackend w (base @ ''-backend'') svc repo
             (or_else (extractBranchFromUrl (repoPath args)) ''main'')
             (Some (railwayEnvVars (n_databaseUrl nr) (environmentVariables args)))
             (streamlit_flag bp) s5 = (s6, out')"
          and s5: "calls s5 = calls s2" "trackedResources s5 = trackedResources s2"
             "pushed s5 = pushed s2" "dryRun s5 = dryRun s2"
          and alt: "(\<exists>e. out' = Inl e \<and> o3 = Inl e \<and> s3 = s6) \<or>
           (\<exists>rr. out' = Inr rr \<and>
            o3 = Inr (rr, if \<not> dryRun s2 then
                             Some (''https://'' @ r_serviceName rr @ ''.railway.app'')
                           else None) \<and>
            calls s3 = calls s6 \<and> dryRun s3 = dryRun s6 \<and>
            trackedResources s3 = trackedResources s6 @
              [\<lparr>res_platform = Railway, res_type = Project, res_id = r_projectId rr,
                res_name = Some (r_projectName rr)\<rparr>,
               \<lparr>res_platform = Railway, res_type = Service, res_id = r_serviceId rr,
                res_name = Some (r_serviceName rr)\<rparr>] \<and>
            pushed s3 = pushed s6 @
              [\<lparr>res_platform = Railway, res_type = Project, res_id = r_projectId rr,
                res_name = Some (r_projectName rr)\<rparr>,
               \<lparr>res_platform = Railway, res_type = Service, res_id = r_serviceId rr,
                res_name = Some (r_serviceName rr)\<rparr>])"
          by blast
        note pf = provisionBackend_any [OF pb]
        from pf(1) obtain ext where
          ext: "calls s6 = calls s5 @ RailwayProvisionBackend (base @ ''-backend'') svc repo
             (or_else (extractBranchFromUrl (repoPath args)) ''main'')
             (Some (railwayEnvVars (n_databaseUrl nr) (environmentVariables args)))
             (streamlit_flag bp) # ext"
          and inner: "list_all (inner_call (final_variables
             (Some (railwayEnvVars (n_databaseUrl nr) (environmentVariables args)))
             (streamlit_flag bp))) ext" by auto
        have url: "neon_getDatabaseUrl w (calls s0 @ [NeonProvisionDatabase (base @ ''-db''),
            NeonCreateProject (base @ ''-db'')]) (n_projectId nr) = Inr (n_databaseUrl nr)"
          using nf(2) df(1) by simp
        have c6: "calls s6 = calls s0 @
             [NeonProvisionDatabase (base @ ''-db''), NeonCreateProject (base @ ''-db''),
              NeonGetDatabaseUrl (n_projectId nr)] @
             RailwayProvisionBackend (base @ ''-backend'') svc repo
               (or_else (extractBranchFromUrl (repoPath args)) ''main'')
               (Some (railwayEnvVars (n_databaseUrl nr) (environmentVariables args)))
               (streamlit_flag bp) # ext @ []"
          using ext s5(1) nf(1) df(1) by simp
        have t6: "trackedResources s6 = trackedResources s0 @
            [entry Neon Project (n_projectId nr) (n_projectName nr)]"
          using pf(2) s5(2) nf(3) df(2) by (simp add: entry_def)
        have p6: "pushed s6 = pushed s0 @ [entry Neon Project (n_projectId nr) (n_projectName nr)]"
          using pf(3) s5(3) nf(4) df(3) by (simp add: entry_def)
        from alt show thesis
        proof
          assume "\<exists>e. out' = Inl e \<and> o3 = Inl e \<and> s3 = s6"
          then obtain e where e: "o3 = Inl e" "s3 = s6" by auto
          with a d bp Inr t n nr r have "s = s6" and "out = Inl e"
            by (simp_all add: stages_def)
          then have "calls s = calls s6" and "vercel_only []" and "(\<exists>e. out = Inl e \<and>
              trackedResources s = trackedResources s0 @
                [entry Neon Project (n_projectId nr) (n_projectName nr)] \<and>
              pushed s = pushed s0 @ [entry Neon Project (n_projectId nr) (n_projectName nr)])"
            using t6 p6 by (simp_all add: vercel_only_def)
          then show thesis
            using scan url inner c6 by (intro later [where bp = bp and nm = "base @ ''-db''" and nr = nr
                and pn = "base @ ''-backend''" and sn = svc and repo = repo
                and br = "or_else (extractBranchFromUrl (repoPath args)) ''main''"
                and ext = ext and vext = "[]"]) simp_all
        next
          assume "\<exists>rr. out' = Inr rr \<and>
            o3 = Inr (rr, if \<not> dryRun s2 then
                             Some (''https://'' @ r_serviceName rr @ ''.railway.app'')
                           else None) \<and>
            calls s3 = calls s6 \<and> dryRun s3 = dryRun s6 \<and>
            trackedResources s3 = trackedResources s6 @
              [\<lparr>res_platform = Railway, res_type = Project, res_id = r_projectId rr,
                res_name = Some (r_projectName rr)\<rparr>,
               \<lparr>res_platform = Railway, res_type = Service, res_id = r_serviceId rr,
                res_name = Some (r_serviceName rr)\<rparr>] \<and>
            pushed s3 = pushed s6 @
              [\<lparr>res_platform = Railway, res_type = Project, res_id = r_projectId rr,
                res_name = Some (r_projectName rr)\<rparr>,
               \<lparr>res_platform = Railway, res_type = Service, res_id = r_serviceId rr,
                res_name = Some (r_serviceName rr)\<rparr>]"
          then obtain rr u where o3: "o3 = Inr (rr, u)" and c3: "calls s3 = calls s6"
            and t3: "trackedResources s3 = trackedResources s0 @
                [entry Neon Project (n_projectId nr) (n_projectName nr),
                 entry Railway Project (r_projectId rr) (r_projectName rr),
                 entry Railway Service (r_serviceId rr) (r_serviceName rr)]"
            and p3: "pushed s3 = pushed s0 @
                [entry Neon Project (n_projectId nr) (n_projectName nr),
                 entry Railway Project (r_projectId rr) (r_projectName rr),
                 entry Railway Service (r_serviceId rr) (r_serviceName rr)]"
            using t6 p6 by (auto simp: entry_def)
          obtain s4 o4 where v: "deploy_vercel w args repo base u s3 = (s4, o4)"
            by (cases "deploy_vercel w args repo base u s3") auto
          note vf = deploy_vercel_any [OF v]
          from vf(1) obtain vext where vext: "calls s4 = calls s3 @ vext" and vo: "vercel_only vext"
            by auto
          have c4: "calls s4 = calls s0 @
             [NeonProvisionDatabase (base @ ''-db''), NeonCreateProject (base @ ''-db''),
              NeonGetDatabaseUrl (n_projectId nr)] @
             RailwayProvisionBackend (base @ ''-backend'') svc repo
               (or_else (extractBranchFromUrl (repoPath args)) ''main'')
               (Some (railwayEnvVars (n_databaseUrl nr) (environmentVariables args)))
               (streamlit_flag bp) # ext @ vext"
            using vext c3 c6 by simp
          show thesis
          proof (cases o4)
            case (Inl e)
            with a d bp Inr t n nr r o3 v have "s = s4" and "out = Inl e"
              by (simp_all add: stages_def)
            moreover have "trackedResources s4 = trackedResources s3" and "pushed s4 = pushed s3"
              using vf(3) Inl by simp_all
            ultimately have "calls s = calls s4" and "(\<exists>e (rr :: RailwayResult). out = Inl e \<and>
              trackedResources s = trackedResources s0 @
                [entry Neon Project (n_projectId nr) (n_projectName nr),
                 entry Railway Project (r_projectId rr) (r_projectName rr),
                 entry Railway Service (r_serviceId rr) (r_serviceName rr)] \<and>
              pushed s = pushed s0 @
                [entry Neon Project (n_projectId nr) (n_projectName nr),
                 entry Railway Project (r_projectId rr) (r_projectName rr),
                 entry Railway Service (r_serviceId rr) (r_serviceName rr)])"
              using t3 p3 by auto
            then show thesis
              using scan url inner vo c4 by (intro later [where bp = bp and nm = "base @ ''-db''" and nr = nr
                and pn = "base @ ''-backend''" and sn = svc and repo = repo
                and br = "or_else (extractBranchFromUrl (repoPath args)) ''main''"
                and ext = ext and vext = vext]) simp_all
          next
            case vr: (Inr vr)
            let ?s5 = "sendProgress ''All deployments completed!'' System True s4"
            from a d bp Inr t n nr r o3 v vr
            have s: "s = ?s5"
              and out: "out = Inr \<lparr>blueprint = bp,
                    neon_projectId = n_projectId nr,
                    neon_databaseUrl = n_databaseUrl nr,
                    railway_projectId = r_projectId rr,
                    railway_serviceId = r_serviceId rr,
                    railway_url = u,
                    vercel_projectId = v_projectId vr,
                    vercel_projectUrl = v_projectUrl vr\<rparr>"
              by (simp_all add: stages_def Let_def)
            have "pushed s4 = pushed s3 @ [entry Vercel Project (v_projectId vr) (v_projectName vr)]"
              and "trackedResources s4 =
                trackedResources s3 @ [entry Vercel Project (v_projectId vr) (v_projectName vr)]"
              using vf(3) vr by (simp_all add: entry_def)
            with s out p3 t3 have "calls s = calls s4" and "(\<exists>r (rr :: RailwayResult) (vr :: VercelResult). out = Inr r \<and> blueprint r = bp \<and>
              neon_projectId r = n_projectId nr \<and> neon_databaseUrl r = n_databaseUrl nr \<and>
              railway_projectId r = r_projectId rr \<and> railway_serviceId r = r_serviceId rr \<and>
              vercel_projectId r = v_projectId vr \<and>
              trackedResources s = trackedResources s0 @
                [entry Neon Project (n_projectId nr) (n_projectName nr),
                 entry Railway Project (r_projectId rr) (r_projectName rr),
                 entry Railway Service (r_serviceId rr) (r_serviceName rr),
                 entry Vercel Project (v_projectId vr) (v_projectName vr)] \<and>
              pushed s = pushed s0 @
                [entry Neon Project (n_projectId nr) (n_projectName nr),
                 entry Railway Project (r_projectId rr) (r_projectName rr),
                 entry Railway Service (r_serviceId rr) (r_serviceName rr),
                 entry Vercel Project (v_projectId vr) (v_projectName vr)])"
              by auto
            then show thesis
              using scan url inner vo c4 by (intro later [where bp = bp and nm = "base @ ''-db''" and nr = nr
                and pn = "base @ ''-backend''" and sn = svc and repo = repo
                and br = "or_else (extractBranchFromUrl (repoPath args)) ''main''"
                and ext = ext and vext = vext]) simp_all
          qed
        qed
      qed
    qed
  qed
qed

text \<open>The same for the whole \<^verbatim>\<open>try\<close> block, which clears the tracker on success.\<close>

lemma attempt_cases:
  assumes a: "attempt w args s0 = (s, out)"
  obtains
    (early) e where "out = Inl e" and "calls s = calls s0"
      and "trackedResources s = trackedResources s0" and "pushed s = pushed s0"
  | (neon) e ext where "out = Inl e" and "calls s = calls s0 @ ext" and "neon_only ext"
      and "trackedResources s = trackedResources s0" and "pushed s = pushed s0"
  | (later) bp nm and nr :: NeonResult and pn sn repo br ext vext where
      "scanRepository w (calls s0) (repoPath args) = Inr bp"
      and "neon_getDatabaseUrl w (calls s0 @ [NeonProvisionDatabase nm, NeonCreateProject nm])
             (n_projectId nr) = Inr (n_databaseUrl nr)"
      and "calls s = calls s0 @
             [NeonProvisionDatabase nm, NeonCreateProject nm, NeonGetDatabaseUrl (n_projectId nr)] @
             RailwayProvisionBackend pn sn repo br
               (Some (railwayEnvVars (n_databaseUrl nr) (environmentVariables args)))
               (streamlit_flag bp) # ext @ vext"
      and "list_all (inner_call (final_variables
             (Some (railwayEnvVars (n_databaseUrl nr) (environmentVariables args)))
             (streamlit_flag bp))) ext"
      and "vercel_only vext"
      and "(\<exists>e. out = Inl e \<and>
              trackedResources s = trackedResources s0 @
                [entry Neon Project (n_projectId nr) (n_projectName nr)] \<and>
              pushed s = pushed s0 @ [entry Neon Project (n_projectId nr) (n_projectName nr)]) \<or>
           (\<exists>e (rr :: RailwayResult). out = Inl e \<and>
              trackedResources s = trackedResources s0 @
                [entry Neon Project (n_projectId nr) (n_projectName nr),
                 entry Railway Project (r_projectId rr) (r_projectName rr),
                 entry Railway Service (r_serviceId rr) (r_serviceName rr)] \<and>
              pushed s = pushed s0 @
                [entry Neon Project (n_projectId nr) (n_projectName nr),
                 entry Railway Project (r_projectId rr) (r_projectName rr),
                 entry Railway Service (r_serviceId rr) (r_serviceName rr)]) \<or>
           (\<exists>r (rr :: RailwayResult) (vr :: VercelResult). out = Inr r \<and> blueprint r = bp \<and>
              neon_projectId r = n_projectId nr \<and> neon_databaseUrl r = n_databaseUrl nr \<and>
              railway_projectId r = r_projectId rr \<and> railway_serviceId r = r_serviceId rr \<and>
              vercel_projectId r = v_projectId vr \<and>
              trackedResources s = [] \<and>
              pushed s = pushed s0 @
                [entry Neon Project (n_projectId nr) (n_projectName nr),
                 entry Railway Project (r_projectId rr) (r_projectName rr),
                 entry Railway Service (r_serviceId rr) (r_serviceName rr),
                 entry Vercel Project (v_projectId vr) (v_projectName vr)])"
proof -
  obtain s5 where b: "stages w args s0 = (s5, out)"
    and c: "calls s = calls s5" and p: "pushed s = pushed s5"
    and t: "(\<exists>e. out = Inl e \<and> trackedResources s = trackedResources s5) \<or>
            (\<exists>r. out = Inr r \<and> trackedResources s = [])"
  proof -
    obtain s5 o5 where x: "stages w args s0 = (s5, o5)" by (cases "stages w args s0") auto
    show thesis
    proof (cases o5)
      case (Inl e)
      with a x have "s = s5" and "out = Inl e" by (simp_all add: attempt_def)
      with x Inl show thesis by (intro that [of s5]) simp_all
    next
      case (Inr r)
      with a x have "s = s5\<lparr>trackedResources := []\<rparr>" and "out = Inr r"
        by (simp_all add: attempt_def)
      with x Inr show thesis by (intro that [of s5]) simp_all
    qed
  qed
  from b show thesis
  proof (cases rule: stages_cases)
    case (early e)
    with c p t show thesis by (intro that(1) [of e]) auto
  next
    case (neon e ext)
    with c p t show thesis by (intro that(2) [of e ext]) auto
  next
    case (later bp nm nr pn sn repo br ext vext)
    have "(\<exists>e. out = Inl e \<and>
              trackedResources s = trackedResources s0 @
                [entry Neon Project (n_projectId nr) (n_projectName nr)] \<and>
              pushed s = pushed s0 @ [entry Neon Project (n_projectId nr) (n_projectName nr)]) \<or>
           (\<exists>e (rr :: RailwayResult). out = Inl e \<and>
              trackedResources s = trackedResources s0 @
                [entry Neon Project (n_projectId nr) (n_projectName nr),
                 entry Railway Project (r_projectId rr) (r_projectName rr),
                 entry Railway Service (r_serviceId rr) (r_serviceName rr)] \<and>
              pushed s = pushed s0 @
                [entry Neon Project (n_projectId nr) (n_projectName nr),
                 entry Railway Project (r_projectId rr) (r_projectName rr),
                 entry Railway Service (r_serviceId rr) (r_serviceName rr)]) \<or>
           (\<exists>r (rr :: RailwayResult) (vr :: VercelResult). out = Inr r \<and> blueprint r = bp \<and>
              neon_projectId r = n_projectId nr \<and> neon_databaseUrl r = n_databaseUrl nr \<and>
              railway_projectId r = r_projectId rr \<and> railway_serviceId r = r_serviceId rr \<and>
              vercel_projectId r = v_projectId vr \<and>
              trackedResources s = [] \<and>
              pushed s = pushed s0 @
                [entry Neon Project (n_projectId nr) (n_projectName nr),
                 entry Railway Project (r_projectId rr) (r_projectName rr),
                 entry Railway Service (r_serviceId rr) (r_serviceName rr),
                 entry Vercel Project (v_projectId vr) (v_projectName vr)])"
      using later(6) t p by auto
    moreover have "calls s = calls s0 @
             [NeonProvisionDatabase nm, NeonCreateProject nm, NeonGetDatabaseUrl (n_projectId nr)] @
             RailwayProvisionBackend pn sn repo br
               (Some (railwayEnvVars (n_databaseUrl nr) (environmentVariables args)))
               (streamlit_flag bp) # ext @ vext"
      using later(3) c by simp
    ultimately show thesis
      using later(1,2,4,5)
      by (intro that(3) [where bp = bp and nm = nm and nr = nr and pn = pn and sn = sn
            and repo = repo and br = br and ext = ext and vext = vext]) simp_all
  qed
qed

lemma deployFullTrinity_fail:
  assumes "attempt w args (fresh st) = (s, Inl e)"
  shows "deployFullTrinity w args st =
    (rollback w (error_message e)
       (sendProgress ''Initiating rollback to clean up created resources...'' System False
          (sendProgress (cross_mark @ '' Deployment failed: '' @ error_message e) System False s)),
     Inl (failure_text (error_message e)))"
  using assms by (simp add: deployFullTrinity_def Let_def)

lemma deployFullTrinity_ok:
  assumes "attempt w args (fresh st) = (s, Inr r)"
  shows "deployFullTrinity w args st = (s, Inr r)"
  using assms by (simp add: deployFullTrinity_def)

lemma map_filter_all:
  "list_all (\<lambda>r. f r \<noteq> None) xs \<Longrightarrow> map Some (List.map_filter f xs) = map f xs"
  by (induction xs) (auto simp: List.map_filter_simps)

lemma deletable_entries [simp]:
  "delete_call (entry Neon Project i n) = Some (NeonDeleteProject i)"
  "delete_call (entry Railway Project i n) = Some (RailwayDeleteProject i)"
  "delete_call (entry Railway Service i n) = Some (RailwayDeleteService i)"
  "delete_call (entry Vercel Project i n) = Some (VercelDeleteProject i)"
  by (simp_all add: delete_call_def entry_def)

lemma attempt_fail_tracked:
  assumes "attempt w args s0 = (s, Inl e)" and "trackedResources s0 = []"
  shows "deletable (trackedResources s)" and "pushed s = pushed s0 @ trackedResources s"
proof -
  have "deletable (trackedResources s) \<and> pushed s = pushed s0 @ trackedResources s"
    using assms(1)
  proof (cases rule: attempt_cases)
    case (early e)
    then show ?thesis using assms(2) by (simp add: deletable_def)
  next
    case (neon e ext)
    then show ?thesis using assms(2) by (simp add: deletable_def)
  next
    case (later bp nm nr pn sn repo br ext vext)
    from later(6) show ?thesis using assms(2) by (auto simp: deletable_def)
  qed
  then show "deletable (trackedResources s)" and "pushed s = pushed s0 @ trackedResources s"
    by simp_all
qed

section \<open>Tracking and rollback in the full pipeline\<close>

text \<open>
  Claim C1. When the \<^verbatim>\<open>try\<close> block of \<^verbatim>\<open>deployFullTrinity\<close> throws, the calls made
  after the point of failure are delete calls, one for each resource in the tracker at
  that point, from the last tracked to the first; and the tracker holds at that point
  exactly the resources that this run passed to \<^verbatim>\<open>trackResource\<close>, in that order.
\<close>

theorem rollback_reverse_order:
  assumes "snd (attempt w args (fresh st)) = Inl e"
  shows "\<exists>deletes.
           calls (fst (deployFullTrinity w args st)) =
             calls (fst (attempt w args (fresh st))) @ deletes \<and>
           map Some deletes =
             map delete_call (rev (trackedResources (fst (attempt w args (fresh st))))) \<and>
           pushed (fst (attempt w args (fresh st))) =
             pushed st @ trackedResources (fst (attempt w args (fresh st)))"
proof -
  obtain s where a: "attempt w args (fresh st) = (s, Inl e)"
    using assms by (cases "attempt w args (fresh st)") auto
  note t = attempt_fail_tracked [OF a fresh_frame(1)]
  have "calls (fst (deployFullTrinity w args st)) =
      calls s @ List.map_filter delete_call (rev (trackedResources s))"
    by (simp add: deployFullTrinity_fail [OF a] rollback_calls)
  moreover have "map Some (List.map_filter delete_call (rev (trackedResources s))) =
      map delete_call (rev (trackedResources s))"
    using t(1) by (intro map_filter_all) (simp add: deletable_def)
  ultimately show ?thesis using a t(2) by auto
qed

text \<open>
  The Vercel project cannot be created: the tracker holds the Neon project, the Railway
  project and the Railway service, and they are deleted in the reverse order.
\<close>

theorem rollback_reverse_order_witness:
  "snd (attempt vercel_down sample_args (fresh initial)) = Inl ''quota exceeded'' \<and>
   map (\<lambda>r. (res_platform r, res_type r, res_id r))
     (trackedResources (fst (attempt vercel_down sample_args (fresh initial)))) =
     [(Neon, Project, ''np-1''), (Railway, Project, ''rp-1''), (Railway, Service, ''rs-1'')] \<and>
   drop (length (calls (fst (attempt vercel_down sample_args (fresh initial)))))
     (calls (fst (deployFullTrinity vercel_down sample_args initial))) =
     [RailwayDeleteService ''rs-1'', RailwayDeleteProject ''rp-1'', NeonDeleteProject ''np-1'']"
proof -
  have h: "snd (attempt vercel_down sample_args (fresh initial)) = Inl ''quota exceeded''"
    by code_simp
  have m: "map (\<lambda>r. (res_platform r, res_type r, res_id r))
     (trackedResources (fst (attempt vercel_down sample_args (fresh initial)))) =
     [(Neon, Project, ''np-1''), (Railway, Project, ''rp-1''), (Railway, Service, ''rs-1'')]"
    by code_simp
  have t: "map delete_call
     (rev (trackedResources (fst (attempt vercel_down sample_args (fresh initial))))) =
     [Some (RailwayDeleteService ''rs-1''), Some (RailwayDeleteProject ''rp-1''),
      Some (NeonDeleteProject ''np-1'')]"
    by code_simp
  from rollback_reverse_order [OF h] obtain deletes where
    c: "calls (fst (deployFullTrinity vercel_down sample_args initial)) =
          calls (fst (attempt vercel_down sample_args (fresh initial))) @ deletes"
    and d: "map Some deletes =
          map delete_call
            (rev (trackedResources (fst (attempt vercel_down sample_args (fresh initial)))))"
    by blast
  from d t have "map Some deletes =
      map Some [RailwayDeleteService ''rs-1'', RailwayDeleteProject ''rp-1'',
                NeonDeleteProject ''np-1'']" by simp
  then have "deletes =
      [RailwayDeleteService ''rs-1'', RailwayDeleteProject ''rp-1'', NeonDeleteProject ''np-1'']"
    by (simp only: inj_map_eq_map [OF inj_Some])
  with c h m show ?thesis by simp
qed

text \<open>
  Claim C3. A run of \<^verbatim>\<open>deployFullTrinity\<close> that succeeds is a run of the stages of the
  \<^verbatim>\<open>try\<close> block from the emptied tracker, followed by the statement that clears the
  tracker. When the stages have returned, before that statement,
  \<^verbatim>\<open>trackedResources\<close> holds four resources: the Neon project, the Railway project, the
  Railway service and the Vercel project, in this order, with the identifiers that the
  run returns; they are the resources that this run passed to \<^verbatim>\<open>trackResource\<close>.
\<close>

theorem tracker_append_order:
  assumes "deployFullTrinity w args st = (st', Inr r)"
  shows "snd (stages w args (fresh st)) = Inr r \<and>
         st' = (fst (stages w args (fresh st)))\<lparr>trackedResources := []\<rparr> \<and>
         map (\<lambda>x. (res_platform x, res_type x, res_id x))
           (trackedResources (fst (stages w args (fresh st)))) =
           [(Neon, Project, neon_projectId r),
            (Railway, Project, railway_projectId r),
            (Railway, Service, railway_serviceId r),
            (Vercel, Project, vercel_projectId r)] \<and>
         trackedResources (fst (stages w args (fresh st))) =
           drop (length (pushed st)) (pushed st')"
proof -
  obtain s5 o5 where b: "stages w args (fresh st) = (s5, o5)"
    by (cases "stages w args (fresh st)") auto
  have ok: "o5 = Inr r" and s: "st' = s5\<lparr>trackedResources := []\<rparr>"
    using assms b by (cases o5; simp add: deployFullTrinity_def attempt_def Let_def)+
  from b show ?thesis
  proof (cases rule: stages_cases)
    case (early e)
    with ok show ?thesis by simp
  next
    case (neon e ext)
    with ok show ?thesis by simp
  next
    case (later bp nm nr pn sn repo br ext vext)
    from later(6) ok s b show ?thesis by (auto simp: entry_def)
  qed
qed

theorem tracker_append_order_witness:
  "snd (deployFullTrinity sample_world sample_args initial) =
     Inr \<lparr>blueprint = sample_blueprint, neon_projectId = ''np-1'',
          neon_databaseUrl = ''postgresql://db'', railway_projectId = ''rp-1'',
          railway_serviceId = ''rs-1'', railway_url = Some ''https://shop.railway.app'',
          vercel_projectId = ''vp-1'', vercel_projectUrl = ''https://shop.vercel.app''\<rparr> \<and>
   map (\<lambda>x. (res_platform x, res_type x, res_id x))
     (trackedResources (fst (stages sample_world sample_args (fresh initial)))) =
     [(Neon, Project, ''np-1''), (Railway, Project, ''rp-1''),
      (Railway, Service, ''rs-1''), (Vercel, Project, ''vp-1'')] \<and>
   trackedResources (fst (stages sample_world sample_args (fresh initial))) =
     drop (length (pushed initial))
       (pushed (fst (deployFullTrinity sample_world sample_args initial))) \<and>
   trackedResources (fst (deployFullTrinity sample_world sample_args initial)) = []"
proof -
  let ?r = "\<lparr>blueprint = sample_blueprint, neon_projectId = ''np-1'',
          neon_databaseUrl = ''postgresql://db'', railway_projectId = ''rp-1'',
          railway_serviceId = ''rs-1'', railway_url = Some ''https://shop.railway.app'',
          vercel_projectId = ''vp-1'', vercel_projectUrl = ''https://shop.vercel.app''\<rparr>"
  have h: "snd (deployFullTrinity sample_world sample_args initial) = Inr ?r"
    by code_simp
  then have "deployFullTrinity sample_world sample_args initial =
      (fst (deployFullTrinity sample_world sample_args initial), Inr ?r)"
    by (simp add: prod_eq_iff)
  from tracker_append_order [OF this]
  have a: "fst (deployFullTrinity sample_world sample_args initial) =
        (fst (stages sample_world sample_args (fresh initial)))\<lparr>trackedResources := []\<rparr>"
    and b: "map (\<lambda>x. (res_platform x, res_type x, res_id x))
        (trackedResources (fst (stages sample_world sample_args (fresh initial)))) =
        [(Neon, Project, neon_projectId ?r), (Railway, Project, railway_projectId ?r),
         (Railway, Service, railway_serviceId ?r), (Vercel, Project, vercel_projectId ?r)]"
    and c: "trackedResources (fst (stages sample_world sample_args (fresh initial))) =
        drop (length (pushed initial))
          (pushed (fst (deployFullTrinity sample_world sample_args initial)))"
    by blast+
  have "trackedResources (fst (deployFullTrinity sample_world sample_args initial)) = []"
    by (subst a) simp
  with h b c show ?thesis by simp
qed

text \<open>
  Claim C4. \<^verbatim>\<open>deployFullTrinity\<close> starts from an empty tracker, so that what an earlier
  run left in it has no effect on the run; and after the run, whether it returned or
  threw after the rollback, the tracker is empty.
\<close>

theorem tracker_reset:
  "trackedResources (fresh st) = [] \<and>
   deployFullTrinity w args (st\<lparr>trackedResources := rs\<rparr>) = deployFullTrinity w args st \<and>
   trackedResources (fst (deployFullTrinity w args st)) = []"
proof -
  have a: "fresh (st\<lparr>trackedResources := rs\<rparr>) = fresh st" by (simp add: fresh_def)
  obtain s out where at: "attempt w args (fresh st) = (s, out)"
    by (cases "attempt w args (fresh st)") auto
  have "trackedResources (fst (deployFullTrinity w args st)) = []"
  proof (cases out)
    case (Inl e)
    with at show ?thesis by (simp add: deployFullTrinity_fail)
  next
    case (Inr r)
    from at have "trackedResources s = []"
    proof (cases rule: attempt_cases)
      case (later bp nm nr pn sn repo br ext vext)
      from later(6) Inr show ?thesis by auto
    qed (use Inr in simp_all)
    with at Inr show ?thesis by (simp add: deployFullTrinity_ok)
  qed
  then show ?thesis using a by (simp add: deployFullTrinity_def)
qed

text \<open>
  Claim C6, as amended. When the \<^verbatim>\<open>try\<close> block throws, \<^verbatim>\<open>deployFullTrinity\<close> throws
  after the rollback: the tracker is empty and the last event is the one that closes
  the rollback. The error carries the message of the original failure (a fixed text
  when that failure has no message) and the fixed statement that the rollback completed
  and all created resources were cleaned up; it says nothing else about the rollback. A delete that throws is reported by a progress
  event of the rollback (claim C5), not by the error.
\<close>

theorem failure_after_rollback:
  assumes "snd (attempt w args (fresh st)) = Inl e"
  shows "snd (deployFullTrinity w args st) =
           Inl (''Deployment failed: '' @ error_message e @
                ''. Rollback completed - all created resources have been cleaned up.'') \<and>
         trackedResources (fst (deployFullTrinity w args st)) = [] \<and>
         last (events (fst (deployFullTrinity w args st))) =
           \<lparr>ev_step = 0, ev_total = 1,
            ev_message = ''Rollback completed. All resources cleaned up.'',
            ev_platform = System, ev_completed = False\<rparr>"
proof -
  obtain s where a: "attempt w args (fresh st) = (s, Inl e)"
    using assms by (cases "attempt w args (fresh st)") auto
  show ?thesis
    by (simp add: deployFullTrinity_fail [OF a] rollback_last_event failure_text_def)
qed

theorem failure_after_rollback_witness:
  "snd (attempt vercel_down sample_args (fresh initial)) = Inl ''quota exceeded'' \<and>
   snd (deployFullTrinity vercel_down sample_args initial) =
     Inl (''Deployment failed: quota exceeded'' @
          ''. Rollback completed - all created resources have been cleaned up.'') \<and>
   trackedResources (fst (deployFullTrinity vercel_down sample_args initial)) = [] \<and>
   last (events (fst (deployFullTrinity vercel_down sample_args initial))) =
     \<lparr>ev_step = 0, ev_total = 1,
      ev_message = ''Rollback completed. All resources cleaned up.'',
      ev_platform = System, ev_completed = False\<rparr>"
proof -
  have h: "snd (attempt vercel_down sample_args (fresh initial)) = Inl ''quota exceeded''"
    by code_simp
  from failure_after_rollback [OF h] h show ?thesis by (simp add: error_message_def)
qed

text \<open>
  Claim C6 as stated fails when a delete throws during the rollback: the error is the
  same text as when every delete succeeds, and it names no resource, although the event
  of the failed delete was emitted.
\<close>

theorem failure_text_counterexample:
  "snd (deployFullTrinity cleanup_fails sample_args initial) =
     Inl (''Deployment failed: quota exceeded'' @
          ''. Rollback completed - all created resources have been cleaned up.'') \<and>
   ''Failed to delete neon project: project is locked''
     \<in> set (map ev_message (events (fst (deployFullTrinity cleanup_fails sample_args initial)))) \<and>
   snd (deployFullTrinity cleanup_fails sample_args initial) =
     snd (deployFullTrinity vercel_down sample_args initial)"
  by code_simp

section \<open>Environment variables\<close>

lemma spread_distinct: "distinct (map fst base) \<Longrightarrow> distinct (map fst (spread base e))"
  unfolding spread_def
  by (induction e arbitrary: base) (auto simp: AList.distinct_update)

lemma map_of_spread_lookup:
  "distinct (map fst e) \<Longrightarrow>
   map_of (spread base e) a = (case map_of e a of Some v \<Rightarrow> Some v | None \<Rightarrow> map_of base a)"
  unfolding spread_def
proof (induction e arbitrary: base)
  case Nil
  show ?case by simp
next
  case (Cons x e)
  obtain k v where x: "x = (k, v)" by (cases x) auto
  from Cons.prems x have d: "distinct (map fst e)" and k: "k \<notin> fst ` set e" by auto
  then have n: "map_of e k = None" by (simp add: map_of_eq_None_iff)
  have "map_of (fold (\<lambda>(k, v). AList.update k v) e (AList.update k v base)) a =
      (case map_of e a of Some v \<Rightarrow> Some v | None \<Rightarrow> map_of (AList.update k v base) a)"
    using d by (rule Cons.IH)
  then show ?case using x n by (auto simp: AList.update_conv' split: option.splits)
qed

lemma map_of_spread:
  "distinct (map fst e) \<Longrightarrow> map_of (spread base e) = map_of base ++ map_of e"
  by (rule ext) (simp add: map_of_spread_lookup map_add_def)

lemma spread_keys: "k \<in> fst ` set base \<Longrightarrow> k \<in> fst ` set (spread base e)"
  unfolding spread_def
proof (induction e arbitrary: base)
  case Nil
  then show ?case by simp
next
  case (Cons x e)
  obtain a b where x: "x = (a, b)" by (cases x) auto
  from Cons.prems have "k \<in> fst ` set (AList.update a b base)"
    by (simp add: AList.dom_update)
  then have "k \<in> fst ` set (fold (\<lambda>(k, v). AList.update k v) e (AList.update a b base))"
    by (rule Cons.IH)
  then show ?case using x by simp
qed

lemma streamlit_lookups:
  "map_of (optimizeForStreamlit g) ''PORT'' = Some ''8501''"
  "map_of (optimizeForStreamlit g) ''STREAMLIT_SERVER_PORT'' = Some ''8501''"
  "map_of (optimizeForStreamlit g) ''STREAMLIT_SERVER_ADDRESS'' = Some ''0.0.0.0''"
proof -
  have d: "distinct (map fst streamlitVars)" by (simp add: streamlitVars_def)
  have m: "map_of (optimizeForStreamlit g) = map_of (spread [] g) ++ map_of streamlitVars"
    unfolding optimizeForStreamlit_def using d by (rule map_of_spread)
  show "map_of (optimizeForStreamlit g) ''PORT'' = Some ''8501''"
    by (simp add: m streamlitVars_def)
  show "map_of (optimizeForStreamlit g) ''STREAMLIT_SERVER_PORT'' = Some ''8501''"
    by (simp add: m streamlitVars_def)
  show "map_of (optimizeForStreamlit g) ''STREAMLIT_SERVER_ADDRESS'' = Some ''0.0.0.0''"
    by (simp add: m streamlitVars_def)
qed

lemma streamlit_keeps_database_url:
  assumes "distinct (map fst g)"
  shows "map_of (optimizeForStreamlit g) ''DATABASE_URL'' = map_of g ''DATABASE_URL''"
proof -
  have d: "distinct (map fst streamlitVars)" by (simp add: streamlitVars_def)
  have m: "map_of (optimizeForStreamlit g) = map_of (spread [] g) ++ map_of streamlitVars"
    unfolding optimizeForStreamlit_def using d by (rule map_of_spread)
  have "map_of (spread [] g) = map_of [] ++ map_of g" using assms by (rule map_of_spread)
  then show ?thesis by (simp add: m streamlitVars_def map_add_def)
qed

lemma railwayEnvVars_distinct: "distinct (map fst (railwayEnvVars url vars))"
  by (cases vars) (simp_all add: railwayEnvVars_def spread_opt_def spread_distinct)

lemma railwayEnvVars_has_key: "map_of (railwayEnvVars url vars) ''DATABASE_URL'' \<noteq> None"
proof -
  have "''DATABASE_URL'' \<in> fst ` set (railwayEnvVars url vars)"
    by (cases vars) (simp_all add: railwayEnvVars_def spread_opt_def spread_keys)
  then show ?thesis by (simp add: map_of_eq_None_iff)
qed

lemma railwayEnvVars_lookup:
  assumes "case vars of None \<Rightarrow> True | Some e \<Rightarrow> distinct (map fst e)"
  shows "map_of (railwayEnvVars url vars) ''DATABASE_URL'' =
    Some (case (case vars of None \<Rightarrow> None | Some e \<Rightarrow> map_of e ''DATABASE_URL'') of
            None \<Rightarrow> url | Some v \<Rightarrow> v)"
proof (cases vars)
  case None
  then show ?thesis by (simp add: railwayEnvVars_def spread_opt_def)
next
  case (Some e)
  with assms have "distinct (map fst e)" by simp
  then have "map_of (spread [(''DATABASE_URL'', url)] e) =
      map_of [(''DATABASE_URL'', url)] ++ map_of e" by (rule map_of_spread)
  then show ?thesis using Some
    by (simp add: railwayEnvVars_def spread_opt_def map_add_def split: option.splits)
qed

lemma neon_plain: "neon_only cs \<Longrightarrow> list_all plain cs"
  unfolding neon_only_def list_all_iff
proof
  fix c assume "\<forall>c\<in>set cs. call_platform c = Neon" and "c \<in> set cs"
  then have "call_platform c = Neon" by simp
  then show "plain c" by (cases c) simp_all
qed

lemma vercel_plain: "vercel_only cs \<Longrightarrow> list_all plain cs"
  unfolding vercel_only_def list_all_iff
proof
  fix c assume "\<forall>c\<in>set cs. call_platform c = Vercel" and "c \<in> set cs"
  then have "call_platform c = Vercel" by simp
  then show "plain c" by (cases c) simp_all
qed

lemma delete_call_plain: "delete_call r = Some c \<Longrightarrow> plain c"
  by (cases "res_platform r"; cases "res_type r") (auto simp: delete_call_def)

lemma deletes_plain: "list_all plain (List.map_filter delete_call rs)"
  by (induction rs) (auto simp: List.map_filter_simps delete_call_plain split: option.splits)

lemma new_calls_append: "calls st' = calls st @ ext \<Longrightarrow> new_calls st st' = ext"
  by (simp add: new_calls_def)

lemma run_shape:
  assumes run: "deployFullTrinity w args st = (st', out)"
  shows "list_all plain (new_calls st st') \<or>
    (\<exists>bp nm (nr :: NeonResult) pn sn repo br ext rest.
       scanRepository w (calls st) (repoPath args) = Inr bp \<and>
       neon_getDatabaseUrl w (calls st @ [NeonProvisionDatabase nm, NeonCreateProject nm])
         (n_projectId nr) = Inr (n_databaseUrl nr) \<and>
       new_calls st st' =
         [NeonProvisionDatabase nm, NeonCreateProject nm, NeonGetDatabaseUrl (n_projectId nr)] @
         RailwayProvisionBackend pn sn repo br
           (Some (railwayEnvVars (n_databaseUrl nr) (environmentVariables args)))
           (streamlit_flag bp) # ext @ rest \<and>
       list_all (inner_call (final_variables
             (Some (railwayEnvVars (n_databaseUrl nr) (environmentVariables args)))
             (streamlit_flag bp))) ext \<and>
       list_all plain rest)"
proof -
  obtain s o1 where a: "attempt w args (fresh st) = (s, o1)"
    by (cases "attempt w args (fresh st)") auto
  obtain dels where c: "calls st' = calls s @ dels" and d: "list_all plain dels"
  proof (cases o1)
    case (Inl e)
    with a run have "calls st' = calls s @ List.map_filter delete_call (rev (trackedResources s))"
      by (auto simp: deployFullTrinity_fail rollback_calls)
    then show ?thesis using that deletes_plain by blast
  next
    case (Inr r)
    with a run have "calls st' = calls s @ []" by (auto simp: deployFullTrinity_ok)
    then show ?thesis using that [of "[]"] by simp
  qed
  from a show ?thesis
  proof (cases rule: attempt_cases)
    case (early e)
    with c have "new_calls st st' = dels" by (simp add: new_calls_def)
    with d show ?thesis by simp
  next
    case (neon e ext)
    with c have "new_calls st st' = ext @ dels" by (simp add: new_calls_def)
    with d neon(3) show ?thesis by (simp add: neon_plain)
  next
    case (later bp nm nr pn sn repo br ext vext)
    from later(3) c have eq: "new_calls st st' =
        [NeonProvisionDatabase nm, NeonCreateProject nm, NeonGetDatabaseUrl (n_projectId nr)] @
         RailwayProvisionBackend pn sn repo br
           (Some (railwayEnvVars (n_databaseUrl nr) (environmentVariables args)))
           (streamlit_flag bp) # ext @ (vext @ dels)"
      by (simp add: new_calls_def)
    have pl: "list_all plain (vext @ dels)" using later(5) d by (simp add: vercel_plain)
    have sc: "scanRepository w (calls st) (repoPath args) = Inr bp" using later(1) by simp
    have ur: "neon_getDatabaseUrl w (calls st @ [NeonProvisionDatabase nm, NeonCreateProject nm])
         (n_projectId nr) = Inr (n_databaseUrl nr)" using later(2) by simp
    show ?thesis
      apply (rule disjI2)
      apply (rule exI [where x = bp])
      apply (rule exI [where x = nm])
      apply (rule exI [where x = nr])
      apply (rule exI [where x = pn])
      apply (rule exI [where x = sn])
      apply (rule exI [where x = repo])
      apply (rule exI [where x = br])
      apply (rule exI [where x = ext])
      apply (rule exI [where x = "vext @ dels"])
      apply (intro conjI)
          apply (rule sc)
         apply (rule ur)
        apply (rule eq)
       apply (rule later(4))
      apply (rule pl)
      done
  qed
qed

lemma inner_call_backend:
  "list_all (inner_call final) ext \<Longrightarrow> RailwayProvisionBackend pn sn repo br g f \<notin> set ext"
  by (auto simp: list_all_iff)

lemma inner_call_set:
  "list_all (inner_call final) ext \<Longrightarrow> RailwaySetVariables pid sid vs \<in> set ext \<Longrightarrow> vs = final"
  by (auto simp: list_all_iff)

lemma plain_backend:
  "list_all plain cs \<Longrightarrow> RailwayProvisionBackend pn sn repo br g f \<notin> set cs"
  by (auto simp: list_all_iff)

lemma plain_set:
  "list_all plain cs \<Longrightarrow> RailwaySetVariables pid sid vs \<notin> set cs"
  by (auto simp: list_all_iff)

lemma inner_call_railway: "list_all (inner_call final) ext \<Longrightarrow> list_all (\<lambda>c. call_platform c = Railway) ext"
  unfolding list_all_iff
proof
  fix c assume "\<forall>c\<in>set ext. inner_call final c" and "c \<in> set ext"
  then have "inner_call final c" by simp
  then show "call_platform c = Railway" by (cases c) simp_all
qed

text \<open>
  Claim C2, as amended. In every run of \<^verbatim>\<open>deployFullTrinity\<close> in which
  \<^verbatim>\<open>provisionBackend\<close> is called, the call \<^verbatim>\<open>getDatabaseUrl\<close> of the same run has
  returned a connection string before, and the variables handed to
  \<^verbatim>\<open>provisionBackend\<close> bind \<^verbatim>\<open>DATABASE_URL\<close>: to that connection string when the
  variables of the caller have no such key, and to the value of the caller when they
  have one. The variables of the caller are an object, so their keys are distinct.
\<close>

theorem database_url_propagation:
  assumes run: "deployFullTrinity w args st = (st', out)"
    and wf: "case environmentVariables args of None \<Rightarrow> True | Some e \<Rightarrow> distinct (map fst e)"
    and mem: "RailwayProvisionBackend pn sn repo br given flag \<in> set (new_calls st st')"
  shows "\<exists>pre rest nid url vars.
           new_calls st st' = pre @ NeonGetDatabaseUrl nid # rest \<and>
           neon_getDatabaseUrl w (calls st @ pre) nid = Inr url \<and>
           given = Some vars \<and>
           map_of vars ''DATABASE_URL'' =
             Some (case (case environmentVariables args of
                           None \<Rightarrow> None
                         | Some e \<Rightarrow> map_of e ''DATABASE_URL'') of
                     None \<Rightarrow> url
                   | Some v \<Rightarrow> v)"
proof -
  from run_shape [OF run] mem obtain bp nm and nr :: NeonResult and pn' sn' repo' br' ext rest
    where url: "neon_getDatabaseUrl w (calls st @ [NeonProvisionDatabase nm, NeonCreateProject nm])
         (n_projectId nr) = Inr (n_databaseUrl nr)"
      and nc: "new_calls st st' =
         [NeonProvisionDatabase nm, NeonCreateProject nm, NeonGetDatabaseUrl (n_projectId nr)] @
         RailwayProvisionBackend pn' sn' repo' br'
           (Some (railwayEnvVars (n_databaseUrl nr) (environmentVariables args)))
           (streamlit_flag bp) # ext @ rest"
      and inner: "list_all (inner_call (final_variables
             (Some (railwayEnvVars (n_databaseUrl nr) (environmentVariables args)))
             (streamlit_flag bp))) ext"
      and pl: "list_all plain rest"
    using plain_backend by blast
  from mem nc inner_call_backend [OF inner] plain_backend [OF pl]
  have g: "given = Some (railwayEnvVars (n_databaseUrl nr) (environmentVariables args))"
    by auto
  have nc': "new_calls st st' =
      [NeonProvisionDatabase nm, NeonCreateProject nm] @ NeonGetDatabaseUrl (n_projectId nr) #
      (RailwayProvisionBackend pn' sn' repo' br'
           (Some (railwayEnvVars (n_databaseUrl nr) (environmentVariables args)))
           (streamlit_flag bp) # ext @ rest)" using nc by simp
  from nc' url g railwayEnvVars_lookup [OF wf, of "n_databaseUrl nr"]
  show ?thesis by blast
qed

text \<open>
  One run in which the caller gives another variable, and one in which the caller gives
  \<^verbatim>\<open>DATABASE_URL\<close> itself.
\<close>

theorem database_url_propagation_witness:
  "RailwayProvisionBackend ''shop-backend'' ''shop'' ''acme/shop'' ''main''
     (Some [(''DATABASE_URL'', ''postgresql://db''), (''LOG_LEVEL'', ''debug'')]) False
     \<in> set (new_calls initial (fst (deployFullTrinity sample_world
                 (with_variables [(''LOG_LEVEL'', ''debug'')]) initial))) \<and>
   (\<exists>pre rest nid url.
      new_calls initial (fst (deployFullTrinity sample_world
          (with_variables [(''LOG_LEVEL'', ''debug'')]) initial)) =
        pre @ NeonGetDatabaseUrl nid # rest \<and>
      neon_getDatabaseUrl sample_world (calls initial @ pre) nid = Inr url \<and>
      map_of [(''DATABASE_URL'', ''postgresql://db''), (''LOG_LEVEL'', ''debug'')]
        ''DATABASE_URL'' = Some url) \<and>
   RailwayProvisionBackend ''shop-backend'' ''shop'' ''acme/shop'' ''main''
     (Some [(''DATABASE_URL'', ''sqlite://mine'')]) False
     \<in> set (new_calls initial (fst (deployFullTrinity sample_world
                 (with_variables [(''DATABASE_URL'', ''sqlite://mine'')]) initial))) \<and>
   (\<exists>pre rest nid url.
      new_calls initial (fst (deployFullTrinity sample_world
          (with_variables [(''DATABASE_URL'', ''sqlite://mine'')]) initial)) =
        pre @ NeonGetDatabaseUrl nid # rest \<and>
      neon_getDatabaseUrl sample_world (calls initial @ pre) nid = Inr url \<and>
      map_of [(''DATABASE_URL'', ''sqlite://mine'')] ''DATABASE_URL'' = Some ''sqlite://mine'')"
proof -
  let ?a = "with_variables [(''LOG_LEVEL'', ''debug'')]"
  let ?b = "with_variables [(''DATABASE_URL'', ''sqlite://mine'')]"
  have ra: "deployFullTrinity sample_world ?a initial =
      (fst (deployFullTrinity sample_world ?a initial),
       snd (deployFullTrinity sample_world ?a initial))" by simp
  have rb: "deployFullTrinity sample_world ?b initial =
      (fst (deployFullTrinity sample_world ?b initial),
       snd (deployFullTrinity sample_world ?b initial))" by simp
  have wa: "case environmentVariables ?a of None \<Rightarrow> True | Some e \<Rightarrow> distinct (map fst e)"
    by code_simp
  have wb: "case environmentVariables ?b of None \<Rightarrow> True | Some e \<Rightarrow> distinct (map fst e)"
    by code_simp
  have ma: "RailwayProvisionBackend ''shop-backend'' ''shop'' ''acme/shop'' ''main''
     (Some [(''DATABASE_URL'', ''postgresql://db''), (''LOG_LEVEL'', ''debug'')]) False
     \<in> set (new_calls initial (fst (deployFullTrinity sample_world ?a initial)))"
    by code_simp
  have mb: "RailwayProvisionBackend ''shop-backend'' ''shop'' ''acme/shop'' ''main''
     (Some [(''DATABASE_URL'', ''sqlite://mine'')]) False
     \<in> set (new_calls initial (fst (deployFullTrinity sample_world ?b initial)))"
    by code_simp
  have ea: "environmentVariables ?a = Some [(''LOG_LEVEL'', ''debug'')]"
    by (simp add: with_variables_def)
  have eb: "environmentVariables ?b = Some [(''DATABASE_URL'', ''sqlite://mine'')]"
    by (simp add: with_variables_def)
  from database_url_propagation [OF ra wa ma]
  have ca: "\<exists>pre rest nid url.
      new_calls initial (fst (deployFullTrinity sample_world ?a initial)) =
        pre @ NeonGetDatabaseUrl nid # rest \<and>
      neon_getDatabaseUrl sample_world (calls initial @ pre) nid = Inr url \<and>
      map_of [(''DATABASE_URL'', ''postgresql://db''), (''LOG_LEVEL'', ''debug'')]
        ''DATABASE_URL'' = Some url"
    unfolding ea by auto
  from database_url_propagation [OF rb wb mb]
  have cb: "\<exists>pre rest nid url.
      new_calls initial (fst (deployFullTrinity sample_world ?b initial)) =
        pre @ NeonGetDatabaseUrl nid # rest \<and>
      neon_getDatabaseUrl sample_world (calls initial @ pre) nid = Inr url \<and>
      map_of [(''DATABASE_URL'', ''sqlite://mine'')] ''DATABASE_URL'' = Some ''sqlite://mine''"
    unfolding eb by auto
  from ma ca mb cb show ?thesis by blast
qed

text \<open>
  Claim C2 as stated fails when the caller supplies \<^verbatim>\<open>DATABASE_URL\<close>: the database step
  returned \<^verbatim>\<open>postgresql://db\<close>, and \<^verbatim>\<open>provisionBackend\<close> was handed the value of the
  caller.
\<close>

theorem database_url_override_counterexample:
  "RailwayProvisionBackend ''shop-backend'' ''shop'' ''acme/shop'' ''main''
     (Some [(''DATABASE_URL'', ''sqlite://mine'')]) False
     \<in> set (calls (fst (deployFullTrinity sample_world
                 (with_variables [(''DATABASE_URL'', ''sqlite://mine'')]) initial))) \<and>
   neon_getDatabaseUrl sample_world
     [NeonProvisionDatabase ''shop-db'', NeonCreateProject ''shop-db''] ''np-1'' =
     Inr ''postgresql://db'' \<and>
   map_of [(''DATABASE_URL'', ''sqlite://mine'')] ''DATABASE_URL'' \<noteq> Some ''postgresql://db''"
  by code_simp

text \<open>
  Claim C7, as amended. In a run of \<^verbatim>\<open>deployFullTrinity\<close> whose blueprint carries the
  Streamlit flag, the variables of every call of \<^verbatim>\<open>setVariables\<close> bind the three
  Streamlit keys to their fixed values, and their entry for \<^verbatim>\<open>DATABASE_URL\<close> is the
  entry of the variables that were handed to \<^verbatim>\<open>provisionBackend\<close>: the connection
  string that \<^verbatim>\<open>getDatabaseUrl\<close> returned in this run when the variables of the caller
  have no such key, and the value of the caller when they have one.
\<close>

theorem streamlit_variables:
  assumes run: "deployFullTrinity w args st = (st', out)"
    and scan: "scanRepository w (calls st) (repoPath args) = Inr bp"
    and flag: "streamlit_flag bp"
    and wf: "case environmentVariables args of None \<Rightarrow> True | Some e \<Rightarrow> distinct (map fst e)"
    and mem: "RailwaySetVariables pid sid vs \<in> set (new_calls st st')"
  shows "map_of vs ''PORT'' = Some ''8501'' \<and>
         map_of vs ''STREAMLIT_SERVER_PORT'' = Some ''8501'' \<and>
         map_of vs ''STREAMLIT_SERVER_ADDRESS'' = Some ''0.0.0.0'' \<and>
         (\<exists>pre rest nid url pn sn repo br given.
            new_calls st st' = pre @ NeonGetDatabaseUrl nid # rest \<and>
            neon_getDatabaseUrl w (calls st @ pre) nid = Inr url \<and>
            RailwayProvisionBackend pn sn repo br (Some given) True \<in> set (new_calls st st') \<and>
            map_of vs ''DATABASE_URL'' = map_of given ''DATABASE_URL'' \<and>
            map_of vs ''DATABASE_URL'' =
              Some (case (case environmentVariables args of
                            None \<Rightarrow> None
                          | Some e \<Rightarrow> map_of e ''DATABASE_URL'') of
                      None \<Rightarrow> url
                    | Some v \<Rightarrow> v))"
proof -
  from run_shape [OF run] mem obtain bp' nm and nr :: NeonResult and pn sn repo br ext rest
    where scan': "scanRepository w (calls st) (repoPath args) = Inr bp'"
      and url: "neon_getDatabaseUrl w (calls st @ [NeonProvisionDatabase nm, NeonCreateProject nm])
         (n_projectId nr) = Inr (n_databaseUrl nr)"
      and nc: "new_calls st st' =
         [NeonProvisionDatabase nm, NeonCreateProject nm, NeonGetDatabaseUrl (n_projectId nr)] @
         RailwayProvisionBackend pn sn repo br
           (Some (railwayEnvVars (n_databaseUrl nr) (environmentVariables args)))
           (streamlit_flag bp') # ext @ rest"
      and inner: "list_all (inner_call (final_variables
             (Some (railwayEnvVars (n_databaseUrl nr) (environmentVariables args)))
             (streamlit_flag bp'))) ext"
      and pl: "list_all plain rest"
    using plain_set by blast
  let ?given = "railwayEnvVars (n_databaseUrl nr) (environmentVariables args)"
  from scan scan' have bp: "bp' = bp" by simp
  from mem nc plain_set [OF pl] have "RailwaySetVariables pid sid vs \<in> set ext" by auto
  with inner have "vs = final_variables (Some ?given) (streamlit_flag bp')"
    by (rule inner_call_set)
  with bp flag have vs: "vs = optimizeForStreamlit ?given" by (simp add: final_variables_def)
  have m: "RailwayProvisionBackend pn sn repo br (Some ?given) True \<in> set (new_calls st st')"
    using nc bp flag by simp
  have d: "map_of vs ''DATABASE_URL'' = map_of ?given ''DATABASE_URL''"
    unfolding vs using railwayEnvVars_distinct by (rule streamlit_keeps_database_url)
  have nc': "new_calls st st' =
      [NeonProvisionDatabase nm, NeonCreateProject nm] @ NeonGetDatabaseUrl (n_projectId nr) #
      (RailwayProvisionBackend pn sn repo br (Some ?given) (streamlit_flag bp') # ext @ rest)"
    using nc by simp
  have v: "map_of vs ''DATABASE_URL'' =
      Some (case (case environmentVariables args of
                    None \<Rightarrow> None
                  | Some e \<Rightarrow> map_of e ''DATABASE_URL'') of
              None \<Rightarrow> n_databaseUrl nr
            | Some v \<Rightarrow> v)"
    using d railwayEnvVars_lookup [OF wf, of "n_databaseUrl nr"] by simp
  from nc' url m d v
  have "\<exists>pre rest nid url pn sn repo br given.
            new_calls st st' = pre @ NeonGetDatabaseUrl nid # rest \<and>
            neon_getDatabaseUrl w (calls st @ pre) nid = Inr url \<and>
            RailwayProvisionBackend pn sn repo br (Some given) True \<in> set (new_calls st st') \<and>
            map_of vs ''DATABASE_URL'' = map_of given ''DATABASE_URL'' \<and>
            map_of vs ''DATABASE_URL'' =
              Some (case (case environmentVariables args of
                            None \<Rightarrow> None
                          | Some e \<Rightarrow> map_of e ''DATABASE_URL'') of
                      None \<Rightarrow> url
                    | Some v \<Rightarrow> v)" by blast
  then show ?thesis unfolding vs by (simp add: streamlit_lookups)
qed

text \<open>A Streamlit application, and a caller that gives a port of its own.\<close>

theorem streamlit_variables_witness:
  "scanRepository streamlit_world (calls initial)
     (repoPath (with_variables [(''PORT'', ''3000'')])) = Inr streamlit_blueprint \<and>
   streamlit_flag streamlit_blueprint \<and>
   RailwaySetVariables ''rp-1'' ''rs-1''
     [(''DATABASE_URL'', ''postgresql://db''), (''PORT'', ''8501''),
      (''STREAMLIT_SERVER_PORT'', ''8501''), (''STREAMLIT_SERVER_ADDRESS'', ''0.0.0.0'')]
     \<in> set (new_calls initial (fst (deployFullTrinity streamlit_world
                 (with_variables [(''PORT'', ''3000'')]) initial))) \<and>
   (\<exists>pre rest nid url pn sn repo br given.
      new_calls initial (fst (deployFullTrinity streamlit_world
          (with_variables [(''PORT'', ''3000'')]) initial)) =
        pre @ NeonGetDatabaseUrl nid # rest \<and>
      neon_getDatabaseUrl streamlit_world (calls initial @ pre) nid = Inr url \<and>
      RailwayProvisionBackend pn sn repo br (Some given) True
        \<in> set (new_calls initial (fst (deployFullTrinity streamlit_world
                    (with_variables [(''PORT'', ''3000'')]) initial))) \<and>
      map_of given ''DATABASE_URL'' = Some ''postgresql://db'' \<and>
      url = ''postgresql://db'')"
proof -
  let ?a = "with_variables [(''PORT'', ''3000'')]"
  let ?vs = "[(''DATABASE_URL'', ''postgresql://db''), (''PORT'', ''8501''),
      (''STREAMLIT_SERVER_PORT'', ''8501''), (''STREAMLIT_SERVER_ADDRESS'', ''0.0.0.0'')]"
  have r: "deployFullTrinity streamlit_world ?a initial =
      (fst (deployFullTrinity streamlit_world ?a initial),
       snd (deployFullTrinity streamlit_world ?a initial))" by simp
  have s: "scanRepository streamlit_world (calls initial) (repoPath ?a) = Inr streamlit_blueprint"
    by (simp add: streamlit_world_def)
  have f: "streamlit_flag streamlit_blueprint" by code_simp
  have wf: "case environmentVariables ?a of None \<Rightarrow> True | Some e \<Rightarrow> distinct (map fst e)"
    by code_simp
  have m: "RailwaySetVariables ''rp-1'' ''rs-1'' ?vs
     \<in> set (new_calls initial (fst (deployFullTrinity streamlit_world ?a initial)))"
    by code_simp
  have d: "map_of ?vs ''DATABASE_URL'' = Some ''postgresql://db''" by simp
  have e: "environmentVariables ?a = Some [(''PORT'', ''3000'')]"
    by (simp add: with_variables_def)
  from streamlit_variables [OF r s f wf m]
  have "\<exists>pre rest nid url pn sn repo br given.
      new_calls initial (fst (deployFullTrinity streamlit_world ?a initial)) =
        pre @ NeonGetDatabaseUrl nid # rest \<and>
      neon_getDatabaseUrl streamlit_world (calls initial @ pre) nid = Inr url \<and>
      RailwayProvisionBackend pn sn repo br (Some given) True
        \<in> set (new_calls initial (fst (deployFullTrinity streamlit_world ?a initial))) \<and>
      map_of given ''DATABASE_URL'' = Some ''postgresql://db'' \<and>
      url = ''postgresql://db''"
    unfolding e d by simp metis
  with s f m show ?thesis by blast
qed

text \<open>
  Claim C7 as stated fails when the caller supplies \<^verbatim>\<open>DATABASE_URL\<close>: the three
  Streamlit variables are there, and the entry for \<^verbatim>\<open>DATABASE_URL\<close> is the value of
  the caller, not the connection string \<^verbatim>\<open>postgresql://db\<close> of the database step.
\<close>

theorem streamlit_database_url_counterexample:
  "RailwaySetVariables ''rp-1'' ''rs-1''
     [(''DATABASE_URL'', ''sqlite://mine''), (''PORT'', ''8501''),
      (''STREAMLIT_SERVER_PORT'', ''8501''), (''STREAMLIT_SERVER_ADDRESS'', ''0.0.0.0'')]
     \<in> set (calls (fst (deployFullTrinity streamlit_world
                 (with_variables [(''DATABASE_URL'', ''sqlite://mine'')]) initial))) \<and>
   streamlit_flag streamlit_blueprint \<and>
   neon_getDatabaseUrl streamlit_world
     [NeonProvisionDatabase ''shop-db'', NeonCreateProject ''shop-db''] ''np-1'' =
     Inr ''postgresql://db'' \<and>
   map_of [(''DATABASE_URL'', ''sqlite://mine''), (''PORT'', ''8501''),
           (''STREAMLIT_SERVER_PORT'', ''8501''), (''STREAMLIT_SERVER_ADDRESS'', ''0.0.0.0'')]
     ''DATABASE_URL'' \<noteq> Some ''postgresql://db''"
  by code_simp

text \<open>
  Claim C10. When \<^verbatim>\<open>provisionBackend\<close> is called with the Streamlit flag, the variables
  it hands to \<^verbatim>\<open>setVariables\<close> are the given ones with the three Streamlit variables
  written over them: whatever the caller gave for \<^verbatim>\<open>PORT\<close>,
  \<^verbatim>\<open>STREAMLIT_SERVER_PORT\<close> or \<^verbatim>\<open>STREAMLIT_SERVER_ADDRESS\<close>, the values passed on
  are the fixed ones.
\<close>

theorem streamlit_overrides_caller:
  assumes "provisionBackend w pn sn repo br variables True st = (st', out)"
    and "RailwaySetVariables pid sid vs \<in> set (new_calls st st')"
  shows "vs = optimizeForStreamlit (case variables of None \<Rightarrow> [] | Some v \<Rightarrow> v) \<and>
         map_of vs ''PORT'' = Some ''8501'' \<and>
         map_of vs ''STREAMLIT_SERVER_PORT'' = Some ''8501'' \<and>
         map_of vs ''STREAMLIT_SERVER_ADDRESS'' = Some ''0.0.0.0''"
proof -
  from provisionBackend_any(1) [OF assms(1)] obtain ext where
    c: "calls st' = calls st @ RailwayProvisionBackend pn sn repo br variables True # ext"
    and inner: "list_all (inner_call (final_variables variables True)) ext" by auto
  from c have "new_calls st st' = RailwayProvisionBackend pn sn repo br variables True # ext"
    by (rule new_calls_append)
  with assms(2) have "RailwaySetVariables pid sid vs \<in> set ext" by simp
  with inner have "vs = final_variables variables True" by (rule inner_call_set)
  then have vs: "vs = optimizeForStreamlit (case variables of None \<Rightarrow> [] | Some v \<Rightarrow> v)"
    by (simp add: final_variables_def)
  show ?thesis using vs by (simp add: streamlit_lookups)
qed

text \<open>The caller gives a port and an address of its own.\<close>

theorem streamlit_overrides_caller_witness:
  "RailwaySetVariables ''rp-1'' ''rs-1''
     [(''PORT'', ''8501''), (''STREAMLIT_SERVER_ADDRESS'', ''0.0.0.0''),
      (''STREAMLIT_SERVER_PORT'', ''8501'')]
     \<in> set (new_calls initial
          (fst (provisionBackend sample_world ''shop'' ''api'' ''acme/shop'' ''main''
                  (Some [(''PORT'', ''3000''), (''STREAMLIT_SERVER_ADDRESS'', ''127.0.0.1'')])
                  True initial))) \<and>
   [(''PORT'', ''8501''), (''STREAMLIT_SERVER_ADDRESS'', ''0.0.0.0''),
    (''STREAMLIT_SERVER_PORT'', ''8501'')] =
     optimizeForStreamlit [(''PORT'', ''3000''), (''STREAMLIT_SERVER_ADDRESS'', ''127.0.0.1'')]"
proof -
  let ?given = "[(''PORT'', ''3000''), (''STREAMLIT_SERVER_ADDRESS'', ''127.0.0.1'')]"
  let ?run = "provisionBackend sample_world ''shop'' ''api'' ''acme/shop'' ''main''
                  (Some ?given) True initial"
  have r: "?run = (fst ?run, snd ?run)" by simp
  have m: "RailwaySetVariables ''rp-1'' ''rs-1''
     [(''PORT'', ''8501''), (''STREAMLIT_SERVER_ADDRESS'', ''0.0.0.0''),
      (''STREAMLIT_SERVER_PORT'', ''8501'')]
     \<in> set (new_calls initial (fst ?run))" by code_simp
  from streamlit_overrides_caller [OF r m] m show ?thesis by simp
qed

section \<open>Single-platform deployment\<close>

lemma deployToRailway_calls:
  assumes "deployToRailway w p bp pn sn vars st = (st', out)"
  shows "case extractGitHubRepo p of
           None \<Rightarrow>
             st' = st \<and>
             out = Inl (''GitHub repository URL is required for Railway deployment. '' @
                        ''Please provide a GitHub URL (e.g., https://github.com/owner/repo)'')
         | Some repo \<Rightarrow>
             (\<exists>rest.
                new_calls st st' =
                  RailwayProvisionBackend (or_else pn (generateNameFromRepo repo))
                    (or_else sn (generateNameFromRepo repo)) repo
                    (or_else (extractBranchFromUrl p) ''main'') vars (streamlit_flag bp) # rest \<and>
                list_all (\<lambda>c. call_platform c = Railway) rest)"
proof (cases "extractGitHubRepo p")
  case None
  with assms show ?thesis by (simp add: deployToRailway_def)
next
  case (Some repo)
  obtain s1 o1 where pb: "provisionBackend w (or_else pn (generateNameFromRepo repo))
      (or_else sn (generateNameFromRepo repo)) repo
      (or_else (extractBranchFromUrl p) ''main'') vars (streamlit_flag bp) st = (s1, o1)"
    by (cases "provisionBackend w (or_else pn (generateNameFromRepo repo))
      (or_else sn (generateNameFromRepo repo)) repo
      (or_else (extractBranchFromUrl p) ''main'') vars (streamlit_flag bp) st") auto
  with assms Some have s: "st' = s1"
    by (cases o1) (simp_all add: deployToRailway_def Let_def)
  from provisionBackend_any(1) [OF pb] obtain ext where
    c: "calls s1 = calls st @ RailwayProvisionBackend (or_else pn (generateNameFromRepo repo))
      (or_else sn (generateNameFromRepo repo)) repo
      (or_else (extractBranchFromUrl p) ''main'') vars (streamlit_flag bp) # ext"
    and inner: "list_all (inner_call (final_variables vars (streamlit_flag bp))) ext" by auto
  from c s have "new_calls st st' =
      RailwayProvisionBackend (or_else pn (generateNameFromRepo repo))
      (or_else sn (generateNameFromRepo repo)) repo
      (or_else (extractBranchFromUrl p) ''main'') vars (streamlit_flag bp) # ext"
    by (simp add: new_calls_def)
  then show ?thesis using inner_call_railway [OF inner] Some by simp
qed

lemma deployToVercel_calls:
  assumes "deployToVercel w p bp pn vars st = (st', out)"
  shows "case extractGitHubRepo p of
           None \<Rightarrow>
             st' = st \<and>
             out = Inl (''GitHub repository URL is required for Vercel deployment. '' @
                        ''Please provide a GitHub URL (e.g., https://github.com/owner/repo)'')
         | Some repo \<Rightarrow>
             (\<exists>rest.
                new_calls st st' =
                  VercelProvisionFrontend (or_else pn (generateNameFromRepo repo)) (Some repo)
                    vars # rest \<and>
                list_all (\<lambda>c. call_platform c = Vercel) rest)"
proof (cases "extractGitHubRepo p")
  case None
  with assms show ?thesis by (simp add: deployToVercel_def)
next
  case (Some repo)
  obtain s1 o1 where pf: "provisionFrontend w (or_else pn (generateNameFromRepo repo))
      (Some repo) vars st = (s1, o1)"
    by (cases "provisionFrontend w (or_else pn (generateNameFromRepo repo))
      (Some repo) vars st") auto
  with assms Some have s: "st' = s1"
    by (cases o1) (simp_all add: deployToVercel_def Let_def)
  from provisionFrontend_any(1) [OF pf] obtain ext where
    c: "calls s1 = calls st @ VercelProvisionFrontend (or_else pn (generateNameFromRepo repo))
      (Some repo) vars # ext"
    and v: "vercel_only ext" by auto
  from c s have "new_calls st st' =
      VercelProvisionFrontend (or_else pn (generateNameFromRepo repo)) (Some repo) vars # ext"
    by (simp add: new_calls_def)
  then show ?thesis using v Some by (simp add: vercel_only_def)
qed

lemma deployToNeon_calls:
  assumes "deployToNeon w p bp pn st = (st', out)"
  shows "\<exists>rest.
           new_calls st st' =
             NeonProvisionDatabase
               (or_else pn (case extractGitHubRepo p of
                              Some githubRepo \<Rightarrow> generateNameFromRepo githubRepo
                            | None \<Rightarrow> ''neon-database'')) # rest \<and>
           list_all (\<lambda>c. call_platform c = Neon) rest"
proof -
  let ?n = "or_else pn (case extractGitHubRepo p of
                 Some githubRepo \<Rightarrow> generateNameFromRepo githubRepo
               | None \<Rightarrow> ''neon-database'')"
  obtain s1 o1 where pd: "provisionDatabase w ?n st = (s1, o1)"
    by (cases "provisionDatabase w ?n st") auto
  with assms have s: "st' = s1" by (cases o1) (simp_all add: deployToNeon_def Let_def)
  from provisionDatabase_any(1) [OF pd] obtain ext where
    c: "calls s1 = calls st @ NeonProvisionDatabase ?n # ext" and n: "neon_only ext" by auto
  from c s have e: "new_calls st st' = NeonProvisionDatabase ?n # ext"
    by (simp add: new_calls_def)
  then show ?thesis using n by (simp add: neon_only_def)
qed

text \<open>
  Claim C9, as amended. After the classification, \<^verbatim>\<open>deploy\<close> goes by the category and
  by whether the reference is a GitHub URL. For the frontend category with a GitHub URL
  its first call is \<^verbatim>\<open>provisionFrontend\<close> of Vercel and every later call is a Vercel call;
  for the backend category with a GitHub URL its first call is \<^verbatim>\<open>provisionBackend\<close> of
  Railway and every later call is a Railway call. For these two categories with a reference
  that is not a GitHub URL it calls no service, changes nothing and throws the error that
  a GitHub repository URL is required for the deployment. For the database category its
  first call is \<^verbatim>\<open>provisionDatabase\<close> of Neon, whatever the reference, and every later call
  is a Neon call. For the unknown category it calls no service, changes nothing and throws
  the error that a project of this type cannot be deployed.
\<close>

theorem single_platform_routing:
  assumes scan: "scanRepository w (calls st) p = Inr bp"
    and run: "deploy w p pn sn vars st = (st', out)"
  shows "case ptype bp of
           FRONTEND \<Rightarrow>
             (case extractGitHubRepo p of
                None \<Rightarrow>
                  st' = st \<and>
                  out = Inl (''GitHub repository URL is required for Vercel deployment. '' @
                    ''Please provide a GitHub URL (e.g., https://github.com/owner/repo)'')
              | Some repo \<Rightarrow>
                  (\<exists>rest.
                     new_calls st st' =
                       VercelProvisionFrontend (or_else pn (generateNameFromRepo repo))
                         (Some repo) vars # rest \<and>
                     list_all (\<lambda>c. call_platform c = Vercel) rest))
         | BACKEND \<Rightarrow>
             (case extractGitHubRepo p of
                None \<Rightarrow>
                  st' = st \<and>
                  out = Inl (''GitHub repository URL is required for Railway deployment. '' @
                    ''Please provide a GitHub URL (e.g., https://github.com/owner/repo)'')
              | Some repo \<Rightarrow>
                  (\<exists>rest.
                     new_calls st st' =
                       RailwayProvisionBackend (or_else pn (generateNameFromRepo repo))
                         (or_else sn (generateNameFromRepo repo)) repo
                         (or_else (extractBranchFromUrl p) ''main'') vars
                         (streamlit_flag bp) # rest \<and>
                     list_all (\<lambda>c. call_platform c = Railway) rest))
         | DATABASE \<Rightarrow>
             (\<exists>rest.
                new_calls st st' =
                  NeonProvisionDatabase
                    (or_else pn (case extractGitHubRepo p of
                                   Some githubRepo \<Rightarrow> generateNameFromRepo githubRepo
                                 | None \<Rightarrow> ''neon-database'')) # rest \<and>
                list_all (\<lambda>c. call_platform c = Neon) rest)
         | UNKNOWN \<Rightarrow>
             st' = st \<and> out = Inl ''Cannot deploy project of type: unknown''"
proof (cases "ptype bp")
  case FRONTEND
  obtain s1 o1 where d: "deployToVercel w p bp pn vars st = (s1, o1)"
    by (cases "deployToVercel w p bp pn vars st") auto
  from scan run FRONTEND d have s: "st' = s1" by (cases o1) (simp_all add: deploy_def)
  show ?thesis
  proof (cases "extractGitHubRepo p")
    case None
    with d have "o1 = Inl (''GitHub repository URL is required for Vercel deployment. '' @
        ''Please provide a GitHub URL (e.g., https://github.com/owner/repo)'')"
      by (simp only: deployToVercel_def option.case prod.inject)
    with scan run FRONTEND d have "out = Inl (''GitHub repository URL is required for Vercel deployment. '' @
        ''Please provide a GitHub URL (e.g., https://github.com/owner/repo)'')"
      by (simp only: deploy_def sum.case ProjectType.case prod.case prod.inject)
    moreover from d None have "s1 = st" by (simp only: deployToVercel_def option.case prod.inject)
    ultimately show ?thesis unfolding FRONTEND None s by (simp only: ProjectType.case option.case)
  next
    case (Some repo)
    from deployToVercel_calls [OF d] show ?thesis
      unfolding FRONTEND Some s by (simp only: ProjectType.case option.case)
  qed
next
  case BACKEND
  obtain s1 o1 where d: "deployToRailway w p bp pn sn vars st = (s1, o1)"
    by (cases "deployToRailway w p bp pn sn vars st") auto
  from scan run BACKEND d have s: "st' = s1" by (cases o1) (simp_all add: deploy_def)
  show ?thesis
  proof (cases "extractGitHubRepo p")
    case None
    with d have "o1 = Inl (''GitHub repository URL is required for Railway deployment. '' @
        ''Please provide a GitHub URL (e.g., https://github.com/owner/repo)'')"
      by (simp only: deployToRailway_def option.case prod.inject)
    with scan run BACKEND d have "out = Inl (''GitHub repository URL is required for Railway deployment. '' @
        ''Please provide a GitHub URL (e.g., https://github.com/owner/repo)'')"
      by (simp only: deploy_def sum.case ProjectType.case prod.case prod.inject)
    moreover from d None have "s1 = st" by (simp only: deployToRailway_def option.case prod.inject)
    ultimately show ?thesis unfolding BACKEND None s by (simp only: ProjectType.case option.case)
  next
    case (Some repo)
    from deployToRailway_calls [OF d] show ?thesis
      unfolding BACKEND Some s by (simp only: ProjectType.case option.case)
  qed
next
  case DATABASE
  obtain s1 o1 where d: "deployToNeon w p bp pn st = (s1, o1)"
    by (cases "deployToNeon w p bp pn st") auto
  with scan run DATABASE have s: "st' = s1" by (cases o1) (simp_all add: deploy_def)
  from deployToNeon_calls [OF d] show ?thesis
    unfolding DATABASE s by (simp only: ProjectType.case)
next
  case UNKNOWN
  with scan run show ?thesis by (simp add: deploy_def)
qed

text \<open>
  One run for each category with a GitHub URL, and the frontend category with a local
  path.
\<close>

theorem single_platform_routing_witness:
  "(\<exists>rest.
      new_calls initial
        (fst (deploy (classified FRONTEND) ''https://github.com/acme/shop'' None None None
                initial)) =
        VercelProvisionFrontend ''shop'' (Some ''acme/shop'') None # rest \<and>
      list_all (\<lambda>c. call_platform c = Vercel) rest) \<and>
   (\<exists>rest.
      new_calls initial
        (fst (deploy (classified BACKEND) ''https://github.com/acme/shop'' None None None
                initial)) =
        RailwayProvisionBackend ''shop'' ''shop'' ''acme/shop'' ''main'' None False # rest \<and>
      list_all (\<lambda>c. call_platform c = Railway) rest) \<and>
   (\<exists>rest.
      new_calls initial
        (fst (deploy (classified DATABASE) ''https://github.com/acme/shop'' None None None
                initial)) =
        NeonProvisionDatabase ''shop'' # rest \<and>
      list_all (\<lambda>c. call_platform c = Neon) rest) \<and>
   fst (deploy (classified UNKNOWN) ''https://github.com/acme/shop'' None None None initial) =
     initial \<and>
   snd (deploy (classified UNKNOWN) ''https://github.com/acme/shop'' None None None initial) =
     Inl ''Cannot deploy project of type: unknown'' \<and>
   extractGitHubRepo ''./my-app'' = None \<and>
   fst (deploy (classified FRONTEND) ''./my-app'' None None None initial) = initial \<and>
   snd (deploy (classified FRONTEND) ''./my-app'' None None None initial) =
     Inl (''GitHub repository URL is required for Vercel deployment. '' @
          ''Please provide a GitHub URL (e.g., https://github.com/owner/repo)'')"
proof -
  let ?p = "''https://github.com/acme/shop''"
  let ?q = "''./my-app''"
  have s: "\<And>t q. scanRepository (classified t) (calls initial) q =
      Inr (sample_blueprint\<lparr>ptype := t\<rparr>)"
    by (simp add: classified_def sample_world_def)
  have r: "\<And>t q. deploy (classified t) q None None None initial =
      (fst (deploy (classified t) q None None None initial),
       snd (deploy (classified t) q None None None initial))" by simp
  have g: "extractGitHubRepo ?p = Some ''acme/shop''" by code_simp
  have l: "extractGitHubRepo ?q = None" by code_simp
  have n: "or_else None (generateNameFromRepo ''acme/shop'') = ''shop''" by code_simp
  have n': "or_else None (case Some ''acme/shop'' of
              Some githubRepo \<Rightarrow> generateNameFromRepo githubRepo
            | None \<Rightarrow> ''neon-database'') = ''shop''" by code_simp
  have b: "or_else (extractBranchFromUrl ?p) ''main'' = ''main''" by code_simp
  have f: "streamlit_flag (sample_blueprint\<lparr>ptype := BACKEND\<rparr>) = False" by code_simp
  have t: "\<And>t. ptype (sample_blueprint\<lparr>ptype := t\<rparr>) = t" by simp
  from single_platform_routing [OF s r, of FRONTEND ?p]
  have a1: "\<exists>rest.
      new_calls initial (fst (deploy (classified FRONTEND) ?p None None None initial)) =
        VercelProvisionFrontend ''shop'' (Some ''acme/shop'') None # rest \<and>
      list_all (\<lambda>c. call_platform c = Vercel) rest"
    unfolding t g by (simp only: ProjectType.case option.case n)
  from single_platform_routing [OF s r, of BACKEND ?p]
  have a2: "\<exists>rest.
      new_calls initial (fst (deploy (classified BACKEND) ?p None None None initial)) =
        RailwayProvisionBackend ''shop'' ''shop'' ''acme/shop'' ''main'' None False # rest \<and>
      list_all (\<lambda>c. call_platform c = Railway) rest"
    unfolding t g by (simp only: ProjectType.case option.case n b f)
  from single_platform_routing [OF s r, of DATABASE ?p]
  have a3: "\<exists>rest.
      new_calls initial (fst (deploy (classified DATABASE) ?p None None None initial)) =
        NeonProvisionDatabase ''shop'' # rest \<and>
      list_all (\<lambda>c. call_platform c = Neon) rest"
    unfolding t g by (simp only: ProjectType.case n')
  from single_platform_routing [OF s r, of UNKNOWN ?p]
  have a4: "fst (deploy (classified UNKNOWN) ?p None None None initial) = initial \<and>
    snd (deploy (classified UNKNOWN) ?p None None None initial) =
      Inl ''Cannot deploy project of type: unknown''"
    unfolding t by (simp only: ProjectType.case)
  from single_platform_routing [OF s r, of FRONTEND ?q]
  have a5: "fst (deploy (classified FRONTEND) ?q None None None initial) = initial \<and>
    snd (deploy (classified FRONTEND) ?q None None None initial) =
     Inl (''GitHub repository URL is required for Vercel deployment. '' @
          ''Please provide a GitHub URL (e.g., https://github.com/owner/repo)'')"
    unfolding t l by (simp only: ProjectType.case option.case)
  from a1 a2 a3 a4 a5 l show ?thesis by (intro conjI) (simp_all only:)
qed

text \<open>
  Claim C9 as stated fails for the backend category with a local path: no adapter is
  called, and the error is the one that asks for a GitHub URL.
\<close>

theorem single_platform_guard_counterexample:
  "new_calls initial (fst (deploy (classified BACKEND) ''./my-app'' None None None initial)) = [] \<and>
   snd (deploy (classified BACKEND) ''./my-app'' None None None initial) =
     Inl (''GitHub repository URL is required for Railway deployment. '' @
          ''Please provide a GitHub URL (e.g., https://github.com/owner/repo)'')"
  by code_simp

end
